theory Spec2Isabelle
  imports Main "HOL-Library.Sublist"
begin

section \<open>Python values used by the program\<close>

text \<open>
  Exceptions are values. Only the exception classes that the modelled code raises,
  catches or lets through are listed; \<open>OtherError\<close> stands for any other class.
\<close>

datatype exn =
    AssertionError
  | ValueError
  | IOError
  | SyntaxError
  | ImportError string
  | OtherError string

text \<open>\<open>s.split(c)\<close> for a one-character separator: n separators give n + 1 pieces.\<close>

fun split_on :: "char \<Rightarrow> string \<Rightarrow> string list" where
  "split_on c [] = [[]]"
| "split_on c (x # xs) =
     (if x = c then [] # split_on c xs
      else (case split_on c xs of [] \<Rightarrow> [[x]] | w # ws \<Rightarrow> (x # w) # ws))"

text \<open>\<open>sep.join(xs)\<close>.\<close>

fun str_join :: "string \<Rightarrow> string list \<Rightarrow> string" where
  "str_join sep [] = []"
| "str_join sep [x] = x"
| "str_join sep (x # y # ys) = x @ sep @ str_join sep (y # ys)"

text \<open>\<open>s.rfind(c)\<close>: the index of the last occurrence of \<open>c\<close>, or -1.\<close>

definition rfind :: "char \<Rightarrow> string \<Rightarrow> int" where
  "rfind c s =
     (if c \<in> set s then int (length s) - 1 - int (length (takeWhile (\<lambda>x. x \<noteq> c) (rev s)))
      else - 1)"

text \<open>\<open>s.rstrip(c)\<close> for a one-character set.\<close>

definition rstrip :: "char \<Rightarrow> string \<Rightarrow> string" where
  "rstrip c s = rev (dropWhile (\<lambda>x. x = c) (rev s))"

text \<open>
  Slices \<open>s[:i]\<close> and \<open>s[i:]\<close>: a negative index counts from the end, and an index
  out of range is clamped (a slice never raises).
\<close>

definition slice_index :: "nat \<Rightarrow> int \<Rightarrow> nat" where
  "slice_index len i = (if i < 0 then nat (max 0 (int len + i)) else min len (nat i))"

definition slice_to :: "string \<Rightarrow> int \<Rightarrow> string" where
  "slice_to s i = take (slice_index (length s) i) s"

definition slice_from :: "string \<Rightarrow> int \<Rightarrow> string" where
  "slice_from s i = drop (slice_index (length s) i) s"

section \<open>posixpath\<close>

text \<open>
  The functions of \<open>os.path\<close> that the program calls and that compute on the text of a
  path alone. What depends on the machine is a field of \<open>os_env\<close>: the current
  directory and \<open>os.path.realpath\<close> (which follows symbolic links).
\<close>

record os_env =
  getcwd :: string
  realpath :: "string \<Rightarrow> string"

definition isabs :: "string \<Rightarrow> bool" where
  "isabs p = prefix ''/'' p"

text \<open>\<open>os.path.join(a, b)\<close> and \<open>os.path.join(a, *ps)\<close>.\<close>

definition posix_join :: "string \<Rightarrow> string \<Rightarrow> string" where
  "posix_join a b =
     (if prefix ''/'' b then b
      else if a = [] \<or> suffix ''/'' a then a @ b
      else a @ ''/'' @ b)"

definition join_all :: "string \<Rightarrow> string list \<Rightarrow> string" where
  "join_all a ps = foldl posix_join a ps"

definition basename :: "string \<Rightarrow> string" where
  "basename p = slice_from p (rfind CHR ''/'' p + 1)"

definition dirname :: "string \<Rightarrow> string" where
  "dirname p =
     (let head = slice_to p (rfind CHR ''/'' p + 1)
      in if head \<noteq> [] \<and> head \<noteq> replicate (length head) CHR ''/''
         then rstrip CHR ''/'' head else head)"

text \<open>
  The loop of \<open>normpath\<close> over the components; \<open>init\<close> says whether the path starts
  with a slash, \<open>new_comps\<close> is the list built so far.
\<close>

fun norm_comps :: "bool \<Rightarrow> string list \<Rightarrow> string list \<Rightarrow> string list" where
  "norm_comps init [] new_comps = new_comps"
| "norm_comps init (c # comps) new_comps =
     (if c = [] \<or> c = ''.'' then norm_comps init comps new_comps
      else if c \<noteq> ''..'' \<or> (\<not> init \<and> new_comps = [])
              \<or> (new_comps \<noteq> [] \<and> last new_comps = ''..'')
        then norm_comps init comps (new_comps @ [c])
      else if new_comps \<noteq> [] then norm_comps init comps (butlast new_comps)
      else norm_comps init comps new_comps)"

definition normpath :: "string \<Rightarrow> string" where
  "normpath p =
     (if p = [] then ''.''
      else
        let initial_slashes =
              (if prefix ''/'' p
               then (if prefix ''//'' p \<and> \<not> prefix ''///'' p then 2 else 1)
               else (0::nat));
            comps = norm_comps (initial_slashes \<noteq> 0) (split_on CHR ''/'' p) [];
            path = replicate initial_slashes CHR ''/'' @ str_join ''/'' comps
        in if path = [] then ''.'' else path)"

definition abspath :: "os_env \<Rightarrow> string \<Rightarrow> string" where
  "abspath env p = normpath (if isabs p then p else posix_join (getcwd env) p)"

text \<open>
  \<open>os.path.commonprefix\<close> of two lists: it compares the smaller and the larger of the
  two in the lexicographic order up to the first difference, which is their longest
  common prefix.
\<close>

fun commonprefix :: "'a list \<Rightarrow> 'a list \<Rightarrow> 'a list" where
  "commonprefix (x # xs) (y # ys) = (if x = y then x # commonprefix xs ys else [])"
| "commonprefix _ _ = []"

definition relpath :: "os_env \<Rightarrow> string \<Rightarrow> string \<Rightarrow> exn + string" where
  "relpath env p start =
     (if p = [] then Inl ValueError
      else
        let start_list = filter (\<lambda>x. x \<noteq> []) (split_on CHR ''/'' (abspath env start));
            path_list = filter (\<lambda>x. x \<noteq> []) (split_on CHR ''/'' (abspath env p));
            i = length (commonprefix start_list path_list);
            rel_list = replicate (length start_list - i) ''..'' @ drop i path_list
        in (case rel_list of [] \<Rightarrow> Inr ''.'' | a # ps \<Rightarrow> Inr (join_all a ps)))"

section \<open>workspace/path.py: class Path\<close>

text \<open>
  The field \<open>abs\<close> of the source is \<open>absp\<close> here (\<open>abs\<close> is the absolute value in HOL).
  Equality of records is equality of both fields, as \<open>__eq__\<close> and \<open>__hash__\<close> have it.
\<close>

record Path =
  absp :: string
  ws_root :: string

definition Path_init :: "os_env \<Rightarrow> string \<Rightarrow> string \<Rightarrow> Path" where
  "Path_init env p root =
     \<lparr>absp = (if isabs p then realpath env p else realpath env (posix_join root p)),
      ws_root = root\<rparr>"

definition rel :: "os_env \<Rightarrow> Path \<Rightarrow> exn + string" where
  "rel env p = relpath env (absp p) (ws_root p)"

definition shortest :: "os_env \<Rightarrow> Path \<Rightarrow> exn + string" where
  "shortest env p =
     (case rel env p of
        Inl e \<Rightarrow> Inl e
      | Inr r \<Rightarrow> Inr (if length r < length (absp p) then r else absp p))"

definition in_workspace :: "Path \<Rightarrow> bool" where
  "in_workspace p = prefix (ws_root p) (absp p)"

text \<open>
  The two local variables of \<open>abbreviate\<close>. \<open>int(max_len * 2 / 3)\<close> divides as a float
  and truncates; it is reached only when the string is longer than \<open>max_len\<close>, so
  \<open>max_len\<close> is below any length a string can have and the quotient is exact: it is
  the integer division written here.
\<close>

definition suffix_count :: "int \<Rightarrow> bool \<Rightarrow> string \<Rightarrow> int" where
  "suffix_count max_len require_basename res =
     (let sc = (max_len * 2) div 3
      in if require_basename \<and> sc < int (length (basename res))
         then int (length (basename res)) else sc)"

definition prefix_count :: "int \<Rightarrow> int \<Rightarrow> int" where
  "prefix_count max_len sc =
     (let pc = max_len - sc - 2 in if pc < 0 then 0 else pc)"

definition abbreviate :: "os_env \<Rightarrow> Path \<Rightarrow> int \<Rightarrow> bool \<Rightarrow> exn + string" where
  "abbreviate env p max_len require_basename =
     (if \<not> 16 \<le> max_len then Inl AssertionError
      else
        (case shortest env p of
           Inl e \<Rightarrow> Inl e
         | Inr res \<Rightarrow>
             if int (length res) \<le> max_len then Inr res
             else
               let sc = suffix_count max_len require_basename res;
                   pc = prefix_count max_len sc
               in Inr (slice_to res pc @ ''..'' @ slice_from res (- sc))))"

text \<open>
  \<open>s.count('..')\<close>: the occurrences of the two-dot marker in a string, counted from the
  left without overlap.
\<close>

fun count_marker :: "string \<Rightarrow> nat" where
  "count_marker (a # b # s) =
     (if a = CHR ''.'' \<and> b = CHR ''.'' then Suc (count_marker s) else count_marker (b # s))"
| "count_marker _ = 0"

text \<open>An environment for examples: the current directory is the root, no symbolic links.\<close>

definition env0 :: os_env where
  "env0 = \<lparr>getcwd = ''/'', realpath = normpath\<rparr>"

text \<open>
  What the claim about \<open>in_workspace\<close> means by a path lying under the root, in the
  words of the spec: the directories that lead to the root are the first directories
  that lead to the path.
\<close>

definition path_parts :: "string \<Rightarrow> string list" where
  "path_parts p = filter (\<lambda>x. x \<noteq> []) (split_on CHR ''/'' p)"

definition under_root_spec :: "Path \<Rightarrow> bool" where
  "under_root_spec p = prefix (path_parts (ws_root p)) (path_parts (absp p))"

section \<open>workspace/workspace.py: the configuration\<close>

text \<open>
  The configuration is the dictionary that \<open>json.loads\<close> returns: a list of keys and
  values in insertion order, with values of JSON's kinds (numbers with a fraction are
  not modelled: no recognised key holds one).
\<close>

datatype json =
    JNull
  | JBool bool
  | JNum int
  | JStr string
  | JList "json list"
  | JObj "(string \<times> json) list"

text \<open>\<open>d[k] = v\<close>: an existing key keeps its place, a new one goes last.\<close>

fun dict_set :: "'k \<Rightarrow> 'v \<Rightarrow> ('k \<times> 'v) list \<Rightarrow> ('k \<times> 'v) list" where
  "dict_set k v [] = [(k, v)]"
| "dict_set k v ((k', v') # kvs) =
     (if k' = k then (k, v) # kvs else (k', v') # dict_set k v kvs)"

text \<open>
  A listener of the file list is called with the removed and the added paths. What it
  does is a change of a state of its own, of type \<open>'w\<close>; it returns normally (\<open>None\<close>)
  or raises.
\<close>

type_synonym 'w listener = "Path set \<Rightarrow> Path set \<Rightarrow> 'w \<Rightarrow> exn option \<times> 'w"

record 'w Workspace =
  workspace_dir :: string
  files :: "Path set"
  file_listeners :: "'w listener list"
  config :: "(string \<times> json) list"

text \<open>
  The accessors return \<open>self.config.get(key, default)\<close>. The interface gives each
  recognised key its type (\<open>root_dir\<close> a string, \<open>exclude_files\<close> and \<open>python_path\<close>
  arrays of strings), and the model reads the value at that type: an array is read as
  the strings it holds (a name is compared with the elements, and equals no element
  that is not a string); a value of another kind is read as the default and is outside
  the model.
\<close>

fun json_strings :: "json list \<Rightarrow> string list" where
  "json_strings [] = []"
| "json_strings (JStr s # vs) = s # json_strings vs"
| "json_strings (v # vs) = json_strings vs"

definition root_dir :: "'w Workspace \<Rightarrow> string" where
  "root_dir ws =
     (case map_of (config ws) ''root_dir'' of
        Some (JStr s) \<Rightarrow> s
      | _ \<Rightarrow> dirname (workspace_dir ws))"

definition python_path :: "'w Workspace \<Rightarrow> string list" where
  "python_path ws =
     (case map_of (config ws) ''python_path'' of
        Some (JList vs) \<Rightarrow> json_strings vs
      | _ \<Rightarrow> [])"

definition exclude_files :: "'w Workspace \<Rightarrow> string list" where
  "exclude_files ws =
     (case map_of (config ws) ''exclude_files'' of
        Some (JList vs) \<Rightarrow> json_strings vs
      | _ \<Rightarrow> [])"

section \<open>workspace/workspace.py: reload_file_list\<close>

text \<open>
  What \<open>os.walk\<close> finds below a directory: the subdirectories with what is below each,
  and the names of the other entries. A directory that \<open>os.walk\<close> lists but does not
  enter (a symbolic link, a directory it may not read) is a subdirectory with nothing
  below it.
\<close>

datatype dirtree = Dir "(string \<times> dirtree) list" "string list"

definition skipped :: "string list \<Rightarrow> string \<Rightarrow> bool" where
  "skipped excl name = (prefix ''.'' name \<or> name \<in> set excl)"

text \<open>The first inner loop: \<open>for name in list(dirnames): ... dirnames.remove(name)\<close>.\<close>

definition prune :: "string list \<Rightarrow> string list \<Rightarrow> string list" where
  "prune excl dirnames =
     fold (\<lambda>name ds. if skipped excl name then remove1 name ds else ds) dirnames dirnames"

text \<open>The second inner loop: \<open>for name in dirnames + filenames: ... new_files.add(...)\<close>.\<close>

definition add_entries ::
  "os_env \<Rightarrow> string list \<Rightarrow> string \<Rightarrow> string \<Rightarrow> string list \<Rightarrow> Path set \<Rightarrow> Path set" where
  "add_entries env excl root dirpath names new_files =
     fold (\<lambda>name fs.
             if skipped excl name then fs
             else insert (Path_init env (realpath env (posix_join dirpath name)) root) fs)
       names new_files"

lemma map_of_size_dirtree:
  "map_of subdirs name = Some t \<Longrightarrow> size t < Suc (size_list (size_prod (\<lambda>x. 0) size) subdirs)"
  by (induction subdirs) (auto split: if_splits)

text \<open>
  The outer loop over \<open>os.walk(root, topdown=True)\<close>: at each directory the body runs
  on its listing, then the walk enters the directories left in \<open>dirnames\<close>, in order,
  at \<open>os.path.join(dirpath, name)\<close>.
\<close>

function walk_files ::
  "os_env \<Rightarrow> string list \<Rightarrow> string \<Rightarrow> string \<Rightarrow> dirtree \<Rightarrow> Path set \<Rightarrow> Path set" where
  "walk_files env excl root dirpath (Dir subdirs nondirs) new_files =
     (let dirnames = prune excl (map fst subdirs);
          new_files' = add_entries env excl root dirpath (dirnames @ nondirs) new_files
      in fold (\<lambda>name fs.
                 case map_of subdirs name of
                   None \<Rightarrow> fs
                 | Some t \<Rightarrow> walk_files env excl root (posix_join dirpath name) t fs)
           dirnames new_files')"
  by pat_completeness auto
termination
  by (relation "measure (\<lambda>(env, excl, root, dirpath, t, new_files). size t)")
     (auto simp: map_of_size_dirtree)

declare walk_files.simps [simp del]

text \<open>
  The part of \<open>reload_file_list\<close> that fills \<open>new_files\<close>. \<open>tree\<close> is the disk at the
  time of the call: what \<open>os.walk\<close> finds at a path, \<open>None\<close> where it finds no directory
  (it then yields nothing).
\<close>

definition list_files ::
  "os_env \<Rightarrow> (string \<Rightarrow> dirtree option) \<Rightarrow> 'w Workspace \<Rightarrow> Path set" where
  "list_files env tree ws =
     (let root = root_dir ws
      in case tree root of
           None \<Rightarrow> {}
         | Some t \<Rightarrow> walk_files env (exclude_files ws) root root t {})"

text \<open>
  The last loop, \<open>for listener in self.file_listeners: listener(removed, added)\<close>: an
  exception of a listener ends the loop and is the exception of the call.
\<close>

fun notify ::
  "'w listener list \<Rightarrow> Path set \<Rightarrow> Path set \<Rightarrow> 'w \<Rightarrow> exn option \<times> 'w" where
  "notify [] removed added w = (None, w)"
| "notify (listener # ls) removed added w =
     (case listener removed added w of
        (Some e, w') \<Rightarrow> (Some e, w')
      | (None, w') \<Rightarrow> notify ls removed added w')"

text \<open>
  \<open>reload_file_list\<close>. The result is the exception that leaves the call, if one does,
  with the workspace and the listeners' state as the call leaves them. (The record
  that the call logs when it starts is not kept.)
\<close>

definition reload_file_list ::
  "os_env \<Rightarrow> (string \<Rightarrow> dirtree option) \<Rightarrow> 'w Workspace \<Rightarrow> 'w
     \<Rightarrow> exn option \<times> 'w Workspace \<times> 'w" where
  "reload_file_list env tree ws w =
     (let new_files = list_files env tree ws;
          removed = files ws - new_files;
          added = new_files - files ws;
          ws' = ws\<lparr>files := new_files\<rparr>
      in case notify (file_listeners ws') removed added w of
           (e, w') \<Rightarrow> (e, ws', w'))"

section \<open>workspace/workspace.py: writing the configuration\<close>

text \<open>
  \<open>json.dumps(config, indent=4)\<close>: an empty array or object is written on one line; the
  elements of another are written one per line, four spaces deeper than the line
  that opens it, with \<open>,\<close> after each but the last, and \<open>: \<close> after a key. A string is
  quoted and escaped as \<open>ensure_ascii\<close> has it (a character is a code point below 256).
\<close>

definition newline_indent :: "nat \<Rightarrow> string" where
  "newline_indent level = CHR 0x0A # replicate (4 * level) CHR '' ''"

definition hex_digit :: "nat \<Rightarrow> char" where
  "hex_digit n = ''0123456789abcdef'' ! n"

definition escape_char :: "char \<Rightarrow> string" where
  "escape_char c =
     (if c = CHR 0x22 then [CHR 0x5C, CHR 0x22]
      else if c = CHR 0x5C then [CHR 0x5C, CHR 0x5C]
      else if c = CHR 0x0A then [CHR 0x5C, CHR ''n'']
      else if c = CHR 0x0D then [CHR 0x5C, CHR ''r'']
      else if c = CHR 0x09 then [CHR 0x5C, CHR ''t'']
      else if c = CHR 0x08 then [CHR 0x5C, CHR ''b'']
      else if c = CHR 0x0C then [CHR 0x5C, CHR ''f'']
      else if 0x20 \<le> (of_char c :: nat) \<and> (of_char c :: nat) \<le> 0x7E then [c]
      else [CHR 0x5C, CHR ''u'', CHR ''0'', CHR ''0'',
            hex_digit (of_char c div 16), hex_digit (of_char c mod 16)])"

definition encode_string :: "string \<Rightarrow> string" where
  "encode_string s = CHR 0x22 # concat (map escape_char s) @ [CHR 0x22]"

fun digits_of :: "nat \<Rightarrow> string" where
  "digits_of n =
     (if n < 10 then [char_of (48 + n)]
      else digits_of (n div 10) @ [char_of (48 + n mod 10)])"

declare digits_of.simps [simp del]

definition int_repr :: "int \<Rightarrow> string" where
  "int_repr i = (if i < 0 then ''-'' @ digits_of (nat (- i)) else digits_of (nat i))"

fun dumps :: "nat \<Rightarrow> json \<Rightarrow> string" where
  "dumps level JNull = ''null''"
| "dumps level (JBool b) = (if b then ''true'' else ''false'')"
| "dumps level (JNum i) = int_repr i"
| "dumps level (JStr s) = encode_string s"
| "dumps level (JList vs) =
     (if vs = [] then ''[]''
      else ''['' @ newline_indent (level + 1)
           @ str_join ('','' @ newline_indent (level + 1)) (map (dumps (level + 1)) vs)
           @ newline_indent level @ '']'')"
| "dumps level (JObj kvs) =
     (if kvs = [] then ''{}''
      else ''{'' @ newline_indent (level + 1)
           @ str_join ('','' @ newline_indent (level + 1))
               (map (\<lambda>(k, v). encode_string k @ '': '' @ dumps (level + 1) v) kvs)
           @ newline_indent level @ ''}'')"

definition json_dumps :: "(string \<times> json) list \<Rightarrow> string" where
  "json_dumps cfg = dumps 0 (JObj cfg)"

text \<open>
  The disk as \<open>_write_config\<close> sees it: the paths that are directories, the text of
  each file, and whether opening a path for writing succeeds (it raises IOError where
  it does not).
\<close>

record disk =
  dirs :: "string set"
  contents :: "string \<Rightarrow> string option"
  writable :: "string \<Rightarrow> bool"

text \<open>
  The log: each record keeps its level and the arguments of its message, not the
  formatted text.
\<close>

datatype log_level = DEBUG | INFO | ERROR

datatype log_msg =
    Couldnt_parse Path exn
  | Failed_to_resolve Path "string option" exn
  | Failed_to_write string exn

type_synonym log = "(log_level \<times> log_msg) list"

text \<open>\<open>_write_config\<close> (a name of Isabelle does not start with an underscore).\<close>

definition write_config :: "disk \<Rightarrow> 'w Workspace \<Rightarrow> log \<Rightarrow> disk \<times> log" where
  "write_config d ws lg =
     (if workspace_dir ws \<notin> dirs d then (d, lg)
      else
        let config_path = posix_join (workspace_dir ws) ''config''
        in if writable d config_path
           then (d\<lparr>contents := (contents d)(config_path \<mapsto> json_dumps (config ws))\<rparr>, lg)
           else (d, lg @ [(ERROR, Failed_to_write config_path IOError)]))"

text \<open>\<open>[p.rel for p in files]\<close>: the first \<open>rel\<close> that raises ends the comprehension.\<close>

fun rels :: "os_env \<Rightarrow> Path list \<Rightarrow> exn + string list" where
  "rels env [] = Inr []"
| "rels env (p # ps) =
     (case rel env p of
        Inl e \<Rightarrow> Inl e
      | Inr r \<Rightarrow> (case rels env ps of Inl e \<Rightarrow> Inl e | Inr rs \<Rightarrow> Inr (r # rs)))"

text \<open>The setters of \<open>open_files\<close> and \<open>root_dir\<close>.\<close>

definition set_open_files ::
  "os_env \<Rightarrow> disk \<Rightarrow> 'w Workspace \<Rightarrow> Path list \<Rightarrow> log
     \<Rightarrow> exn option \<times> 'w Workspace \<times> disk \<times> log" where
  "set_open_files env d ws ps lg =
     (case rels env ps of
        Inl e \<Rightarrow> (Some e, ws, d, lg)
      | Inr rs \<Rightarrow>
          let ws' = ws\<lparr>config := dict_set ''open_files'' (JList (map JStr rs)) (config ws)\<rparr>
          in case write_config d ws' lg of (d', lg') \<Rightarrow> (None, ws', d', lg'))"

definition set_root_dir ::
  "disk \<Rightarrow> 'w Workspace \<Rightarrow> string \<Rightarrow> log \<Rightarrow> 'w Workspace \<times> disk \<times> log" where
  "set_root_dir d ws root lg =
     (let ws' = ws\<lparr>config := dict_set ''root_dir'' (JStr root) (config ws)\<rparr>
      in case write_config d ws' lg of (d', lg') \<Rightarrow> (ws', d', lg'))"

section \<open>graph/edge.py and the vertices\<close>

datatype EdgeType = IMPORT | DECLARE | REFER | CALL

text \<open>
  An edge names its two files. Files are objects, and two names of one object see the
  same sets of edges: a file is an address of the heap, and an edge holds the addresses
  of its source and of its destination.
\<close>

record Edge =
  edge_type :: EdgeType
  source :: nat
  dest :: nat

text \<open>
  The fields of \<open>PyFile\<close> that the modelled code reads or writes. \<open>imports\<close> is a
  Python set: it is kept as the list of its elements, without repetition, in the order
  in which a loop over it meets them. (The field is \<open>imports'\<close> here: \<open>imports\<close> is a
  keyword of Isabelle.) The lists \<open>functions\<close>, \<open>classes\<close> and \<open>calls\<close> stay empty
  and are left out.
\<close>

record File =
  path :: Path
  imports' :: "Path list"
  outgoing :: "Edge set"
  incoming :: "Edge set"

type_synonym heap = "nat \<Rightarrow> File"

section \<open>graph/py_file.py: loading a file\<close>

text \<open>
  What \<open>_load\<close> needs of the machine: the text of a file (\<open>None\<close> where \<open>open\<close>
  raises) and \<open>ast.parse\<close>, which gives the nodes of the syntax tree in the order of
  \<open>ast.walk\<close>, or raises: SyntaxError for a text that is not of the language, and
  other exceptions for other texts it cannot parse (ValueError for a text with a NUL
  character, before Python 3.12; MemoryError or RecursionError for a text nested too
  deep). Of a node only its kind and, for the two import statements, its names are
  kept; the module of a \<open>from\<close> import is \<open>None\<close> for \<open>from . import x\<close>.
\<close>

datatype ast_node =
    Import "string list"
  | ImportFrom "string option" "string list"
  | Other_node

record py_env =
  read_file :: "string \<Rightarrow> string option"
  ast_parse :: "string \<Rightarrow> exn + ast_node list"

text \<open>\<open>'{}.{}'.format(n.module, name.name)\<close>.\<close>

definition format_dotted :: "string option \<Rightarrow> string \<Rightarrow> string" where
  "format_dotted m name = (case m of None \<Rightarrow> ''None'' | Some s \<Rightarrow> s) @ ''.'' @ name"

text \<open>The first loop of \<open>_load\<close>: the list \<open>parsed_imports\<close> of names, each with \<open>maybe_not_module\<close>.\<close>

fun parsed_imports :: "ast_node list \<Rightarrow> (string option \<times> bool) list" where
  "parsed_imports [] = []"
| "parsed_imports (Import names # ns) =
     map (\<lambda>name. (Some name, False)) names @ parsed_imports ns"
| "parsed_imports (ImportFrom m names # ns) =
     (m, False) # map (\<lambda>name. (Some (format_dotted m name), True)) names @ parsed_imports ns"
| "parsed_imports (Other_node # ns) = parsed_imports ns"

text \<open>
  \<open>new_imports.update(set(Path(os.path.realpath(p), root_dir) for p in paths))\<close>: each
  path is added unless the set has it.
\<close>

definition update_imports :: "os_env \<Rightarrow> string \<Rightarrow> string list \<Rightarrow> Path list \<Rightarrow> Path list" where
  "update_imports env root paths new_imports =
     fold (\<lambda>p s. List.insert (Path_init env (realpath env p) root) s) paths new_imports"

text \<open>
  The second loop of \<open>_load\<close>. \<open>resolve_import\<close> is not among the sources: it is a
  parameter, called as the source calls it, and returns the paths or raises. Only
  ImportError is caught; another exception ends the loop and leaves the call.
\<close>

fun resolve_all ::
  "(string option \<Rightarrow> 'f \<Rightarrow> string list \<Rightarrow> exn + string list) \<Rightarrow> 'f \<Rightarrow> os_env
     \<Rightarrow> 'w Workspace \<Rightarrow> Path \<Rightarrow> (string option \<times> bool) list \<Rightarrow> Path list \<Rightarrow> log
     \<Rightarrow> exn option \<times> Path list \<times> log" where
  "resolve_all resolve_import finder env ws self_path [] new_imports lg = (None, new_imports, lg)"
| "resolve_all resolve_import finder env ws self_path ((name, maybe_not_module) # rest) new_imports lg =
     (case resolve_import name finder (python_path ws) of
        Inr paths \<Rightarrow>
          resolve_all resolve_import finder env ws self_path rest
            (update_imports env (root_dir ws) paths new_imports) lg
      | Inl (ImportError e) \<Rightarrow>
          resolve_all resolve_import finder env ws self_path rest new_imports
            (if \<not> maybe_not_module
             then lg @ [(INFO, Failed_to_resolve self_path name (ImportError e))]
             else lg)
      | Inl e \<Rightarrow> (Some e, new_imports, lg))"

text \<open>
  \<open>_load\<close> (\<open>load\<close> here). Of the exceptions of \<open>ast.parse\<close> only SyntaxError is caught;
  another one leaves the call. The result is the exception that leaves the call, if
  one does, with the file and the log as the call leaves them.
\<close>

definition load ::
  "(string option \<Rightarrow> 'f \<Rightarrow> string list \<Rightarrow> exn + string list) \<Rightarrow> 'f \<Rightarrow> py_env \<Rightarrow> os_env
     \<Rightarrow> 'w Workspace \<Rightarrow> File \<Rightarrow> log \<Rightarrow> exn option \<times> File \<times> log" where
  "load resolve_import finder penv env ws f lg =
     (case read_file penv (absp (path f)) of
        None \<Rightarrow> (Some IOError, f, lg)
      | Some text \<Rightarrow>
          (case ast_parse penv text of
             Inl SyntaxError \<Rightarrow> (None, f, lg @ [(INFO, Couldnt_parse (path f) SyntaxError)])
           | Inl e \<Rightarrow> (Some e, f, lg)
           | Inr tree \<Rightarrow>
               (case resolve_all resolve_import finder env ws (path f) (parsed_imports tree) [] lg of
                  (Some e, new_imports, lg') \<Rightarrow> (Some e, f, lg')
                | (None, new_imports, lg') \<Rightarrow> (None, f\<lparr>imports' := new_imports\<rparr>, lg'))))"

text \<open>\<open>PyFile.__init__\<close>.\<close>

definition PyFile_init ::
  "(string option \<Rightarrow> 'f \<Rightarrow> string list \<Rightarrow> exn + string list) \<Rightarrow> 'f \<Rightarrow> py_env \<Rightarrow> os_env
     \<Rightarrow> Path \<Rightarrow> 'w Workspace \<Rightarrow> bool \<Rightarrow> log \<Rightarrow> exn option \<times> File \<times> log" where
  "PyFile_init resolve_import finder penv env p ws no_load lg =
     (let f = \<lparr>path = p, imports' = [], outgoing = {}, incoming = {}\<rparr>
      in if \<not> no_load then load resolve_import finder penv env ws f lg else (None, f, lg))"

section \<open>The import resolver\<close>

text \<open>The two kinds of module of which the spec speaks, under their names in \<open>imp\<close>.\<close>

datatype module_kind = PY_SOURCE | PKG_DIRECTORY

text \<open>
  A finder looks one name up in a list of directories and gives the path found and
  what it is, or \<open>None\<close> where it finds nothing (the finder of the tests is a table of
  this shape).
\<close>

type_synonym finder = "string \<Rightarrow> string list \<Rightarrow> (string \<times> module_kind) option"

text \<open>
  Modelled from the spec: \<open>resolve_import\<close> of \<open>graph/parsers/python3.py\<close>, which is not
  among the sources. The spec: split the dotted name into segments; resolve the first
  segment against the search path to a single-file module or a package directory; a
  package contributes its initializer file and resolution continues in the package's
  own directory for the next segment; the final segment contributes its module file
  or, if it is a package, its initializer; resolution fails where a segment is not
  found. A module that is followed by further segments has no directory to continue
  in and is taken as a failure too; so is a missing name (the module of
  \<open>from . import x\<close>), for which there is nothing to locate.
\<close>

fun resolve_segments :: "finder \<Rightarrow> string list \<Rightarrow> string list \<Rightarrow> exn + string list" where
  "resolve_segments finder search [] = Inr []"
| "resolve_segments finder search (seg # rest) =
     (case finder seg search of
        None \<Rightarrow> Inl (ImportError seg)
      | Some (p, PKG_DIRECTORY) \<Rightarrow>
          (case resolve_segments finder [p] rest of
             Inl e \<Rightarrow> Inl e
           | Inr paths \<Rightarrow> Inr (posix_join p ''__init__.py'' # paths))
      | Some (p, PY_SOURCE) \<Rightarrow> (if rest = [] then Inr [p] else Inl (ImportError seg)))"

definition resolve_import :: "string option \<Rightarrow> finder \<Rightarrow> string list \<Rightarrow> exn + string list" where
  "resolve_import name finder search =
     (case name of
        None \<Rightarrow> Inl (ImportError [])
      | Some n \<Rightarrow> resolve_segments finder search (split_on CHR ''.'' n))"

section \<open>graph/py_file.py: linking\<close>

text \<open>
  Modelled from the spec: the graph of \<open>graph/source_graph.py\<close>, which is not among the
  sources, is a lookup from the path of a file to its vertex, and \<open>find_file\<close> returns
  none where the path has no vertex.
\<close>

record SourceGraph =
  lookup :: "Path \<Rightarrow> nat option"

definition find_file :: "SourceGraph \<Rightarrow> Path \<Rightarrow> nat option" where
  "find_file g p = lookup g p"

text \<open>
  The body of the loop of \<open>visit\<close> for one import, and \<open>visit\<close>: \<open>self\<close> is the address
  of the visiting file. The edge goes into \<open>self.outgoing\<close> first and then into
  \<open>d.incoming\<close>, which are sets of one object where a file imports itself.
\<close>

definition visit_import :: "SourceGraph \<Rightarrow> nat \<Rightarrow> Path \<Rightarrow> heap \<Rightarrow> heap" where
  "visit_import g self i h =
     (case find_file g i of
        None \<Rightarrow> h
      | Some d \<Rightarrow>
          let e = \<lparr>edge_type = IMPORT, source = self, dest = d\<rparr>;
              h1 = h(self := (h self)\<lparr>outgoing := insert e (outgoing (h self))\<rparr>)
          in h1(d := (h1 d)\<lparr>incoming := insert e (incoming (h1 d))\<rparr>))"

definition visit :: "SourceGraph \<Rightarrow> nat \<Rightarrow> heap \<Rightarrow> heap" where
  "visit g self h = fold (visit_import g self) (imports' (h self)) h"

section \<open>Examples: a workspace on disk\<close>

text \<open>
  The directory of the tests of \<open>workspace.py\<close>: \<open>foo\<close>, \<open>dir1/file1\<close>, \<open>dir2/file1\<close> and a
  hidden directory, under \<open>/tmp/t\<close>; then the same after \<open>dir2/file1\<close> was deleted and
  \<open>dir1/file2\<close> added.
\<close>

definition tree1 :: dirtree where
  "tree1 = Dir [(''dir1'', Dir [] [''file1'']), (''dir2'', Dir [] [''file1'']),
                (''.hidden'', Dir [] [''not_hidden''])] [''foo'']"

definition tree2 :: dirtree where
  "tree2 = Dir [(''dir1'', Dir [] [''file1'', ''file2'']), (''dir2'', Dir [] []),
                (''.hidden'', Dir [] [''not_hidden''])] [''foo'']"

definition disk1 :: "string \<Rightarrow> dirtree option" where
  "disk1 p = (if p = ''/tmp/t'' then Some tree1 else None)"

definition disk2 :: "string \<Rightarrow> dirtree option" where
  "disk2 p = (if p = ''/tmp/t'' then Some tree2 else None)"

definition in_t :: "string \<Rightarrow> Path" where
  "in_t p = \<lparr>absp = ''/tmp/t/'' @ p, ws_root = ''/tmp/t''\<rparr>"

text \<open>Listeners that record their call, and one that records it and raises.\<close>

definition log_call :: "nat \<Rightarrow> (nat \<times> Path set \<times> Path set) list listener" where
  "log_call k removed added w = (None, w @ [(k, removed, added)])"

definition failing_call :: "nat \<Rightarrow> (nat \<times> Path set \<times> Path set) list listener" where
  "failing_call k removed added w = (Some (OtherError ''listener''), w @ [(k, removed, added)])"

definition ws1 :: "(nat \<times> Path set \<times> Path set) list listener list
                     \<Rightarrow> (nat \<times> Path set \<times> Path set) list Workspace" where
  "ws1 ls =
     \<lparr>workspace_dir = ''/tmp/t/.workspace'',
      files = {in_t ''foo'', in_t ''dir1'', in_t ''dir1/file1'', in_t ''dir2'', in_t ''dir2/file1''},
      file_listeners = ls,
      config = []\<rparr>"

definition ws0 :: "unit Workspace" where
  "ws0 = \<lparr>workspace_dir = ''/tmp/t/.workspace'', files = {}, file_listeners = [], config = []\<rparr>"

definition ws_excl :: "unit Workspace" where
  "ws_excl = ws0\<lparr>config := [(''exclude_files'', JList [JStr ''dir2''])]\<rparr>"

text \<open>
  The directory of the tests with two symbolic links added: \<open>link\<close>, to the file
  \<open>.hidden/not_hidden\<close>, and \<open>dlink\<close>, to the directory \<open>dir2\<close>. \<open>os.walk\<close> lists \<open>dlink\<close>
  among the directories and does not enter it; \<open>os.path.realpath\<close> follows both links.
\<close>

definition tree_links :: dirtree where
  "tree_links = Dir [(''dir1'', Dir [] [''file1'']), (''dir2'', Dir [] [''file1'']),
                     (''.hidden'', Dir [] [''not_hidden'']), (''dlink'', Dir [] [])]
                    [''foo'', ''link'']"

definition disk_links :: "string \<Rightarrow> dirtree option" where
  "disk_links p = (if p = ''/tmp/t'' then Some tree_links else None)"

definition env_links :: os_env where
  "env_links =
     \<lparr>getcwd = ''/'',
      realpath = (\<lambda>p. if p = ''/tmp/t/link'' then ''/tmp/t/.hidden/not_hidden''
                      else if p = ''/tmp/t/dlink'' then ''/tmp/t/dir2''
                      else normpath p)\<rparr>"

text \<open>The disk without and with the workspace directory; every file may be written.\<close>

definition disk_without :: disk where
  "disk_without = \<lparr>dirs = {''/tmp/t''}, contents = Map.empty, writable = (\<lambda>p. True)\<rparr>"

definition disk_with :: disk where
  "disk_with =
     \<lparr>dirs = {''/tmp/t'', ''/tmp/t/.workspace''}, contents = Map.empty, writable = (\<lambda>p. True)\<rparr>"

text \<open>The disk with the workspace directory, where no file may be written.\<close>

definition disk_locked :: disk where
  "disk_locked =
     \<lparr>dirs = {''/tmp/t'', ''/tmp/t/.workspace''}, contents = Map.empty, writable = (\<lambda>p. False)\<rparr>"

section \<open>Examples: modules and source files\<close>

text \<open>
  The module table of the tests of \<open>py_file.py\<close>: \<open>root\<close> and \<open>root.pkg\<close> are packages,
  \<open>root.pkg.mod\<close> is a module; the search path of the workspace is empty.
\<close>

definition modules :: finder where
  "modules name search =
     (if name = ''root'' \<and> search = [] then Some (''/root/'', PKG_DIRECTORY)
      else if name = ''pkg'' \<and> search = [''/root/''] then Some (''/root/pkg/'', PKG_DIRECTORY)
      else if name = ''mod'' \<and> search = [''/root/pkg/''] then Some (''/root/pkg/mod.py'', PY_SOURCE)
      else None)"

text \<open>
  A source file \<open>/tmp/t/src.py\<close> with a given text, and what \<open>ast.parse\<close> makes of the
  texts of the examples: the nodes of a text of import statements (the module, the
  statements, their aliases); ValueError for the text that is one NUL character;
  SyntaxError for any other text.
\<close>

definition src :: Path where
  "src = \<lparr>absp = ''/tmp/t/src.py'', ws_root = ''/tmp/t''\<rparr>"

definition penv_of :: "string \<Rightarrow> py_env" where
  "penv_of text =
     \<lparr>read_file = (\<lambda>p. if p = ''/tmp/t/src.py'' then Some text else None),
      ast_parse = (\<lambda>t.
        if t = ''import root.pkg.mod''
          then Inr [Other_node, Import [''root.pkg.mod''], Other_node]
        else if t = ''import nosuch; from missing import thing; from root.pkg import Classy''
          then Inr [Other_node, Import [''nosuch''], ImportFrom (Some ''missing'') [''thing''],
                     ImportFrom (Some ''root.pkg'') [''Classy''],
                     Other_node, Other_node, Other_node]
        else if t = [CHR 0x00] then Inl ValueError
        else Inl SyntaxError)\<rparr>"

definition in_root :: "string \<Rightarrow> Path" where
  "in_root p = \<lparr>absp = ''/root/'' @ p, ws_root = ''/tmp/t''\<rparr>"

section \<open>Examples: a graph\<close>

text \<open>
  File A at address 0 imports B, which the graph tracks at address 1, and C, which it
  does not track.
\<close>

definition graph1 :: SourceGraph where
  "graph1 = \<lparr>lookup = [in_t ''a.py'' \<mapsto> 0, in_t ''b.py'' \<mapsto> 1]\<rparr>"

definition heap1 :: heap where
  "heap1 a =
     (if a = 0
      then \<lparr>path = in_t ''a.py'', imports' = [in_t ''b.py'', in_root ''c.py''],
            outgoing = {}, incoming = {}\<rparr>
      else \<lparr>path = in_t ''b.py'', imports' = [], outgoing = {}, incoming = {}\<rparr>)"

section \<open>Notions used to state the claims\<close>

text \<open>
  Every segment of a dotted name but the last is found as a package, in the search
  path first and then in the directory of the package before it, and the last segment
  is found as a module: \<open>ds\<close> are the directories of the packages, \<open>leaf\<close> is the file of
  the module.
\<close>

fun package_chain :: "finder \<Rightarrow> string list \<Rightarrow> string list \<Rightarrow> string list \<Rightarrow> string \<Rightarrow> bool" where
  "package_chain finder search [seg] [] leaf = (finder seg search = Some (leaf, PY_SOURCE))"
| "package_chain finder search (seg # rest) (d # ds) leaf =
     (finder seg search = Some (d, PKG_DIRECTORY) \<and> package_chain finder [d] rest ds leaf)"
| "package_chain finder search segs ds leaf = False"

text \<open>
  The resolver raises nothing but ImportError on a name, and on the names of a list;
  what a name adds to the imports of a file (the paths of its files if it resolves,
  nothing if it fails); and the record that the failure of a name leaves in the log
  of the file at \<open>self_path\<close> (none if the name resolves).
\<close>

definition only_ImportError ::
  "(string option \<Rightarrow> 'f \<Rightarrow> string list \<Rightarrow> exn + string list) \<Rightarrow> 'f \<Rightarrow> string list
     \<Rightarrow> string option \<Rightarrow> bool" where
  "only_ImportError r finder search name =
     (case r name finder search of
        Inl (ImportError msg) \<Rightarrow> True
      | Inl e \<Rightarrow> False
      | Inr paths \<Rightarrow> True)"

definition raises_only_ImportError ::
  "(string option \<Rightarrow> 'f \<Rightarrow> string list \<Rightarrow> exn + string list) \<Rightarrow> 'f \<Rightarrow> string list
     \<Rightarrow> (string option \<times> bool) list \<Rightarrow> bool" where
  "raises_only_ImportError r finder search ps =
     list_all (\<lambda>(name, m). only_ImportError r finder search name) ps"

definition contributes ::
  "(string option \<Rightarrow> 'f \<Rightarrow> string list \<Rightarrow> exn + string list) \<Rightarrow> 'f \<Rightarrow> os_env
     \<Rightarrow> 'w Workspace \<Rightarrow> string option \<Rightarrow> Path set" where
  "contributes r finder env ws name =
     (case r name finder (python_path ws) of
        Inr paths \<Rightarrow> (\<lambda>p. Path_init env (realpath env p) (root_dir ws)) ` set paths
      | Inl e \<Rightarrow> {})"

definition failure_record ::
  "(string option \<Rightarrow> 'f \<Rightarrow> string list \<Rightarrow> exn + string list) \<Rightarrow> 'f
     \<Rightarrow> 'w Workspace \<Rightarrow> Path \<Rightarrow> string option \<Rightarrow> log" where
  "failure_record r finder ws self_path name =
     (case r name finder (python_path ws) of
        Inl e \<Rightarrow> [(INFO, Failed_to_resolve self_path name e)]
      | Inr paths \<Rightarrow> [])"

text \<open>
  The directory that a list of names leads to from the top of a tree, each name being
  looked up among the subdirectories of the directory before it; and the entries that
  are reached from the top through names none of which is hidden or excluded: the
  names \<open>ds\<close> lead to a directory, \<open>name\<close> is listed in it, and neither \<open>name\<close> nor one of
  \<open>ds\<close> is skipped.
\<close>

fun descend :: "dirtree \<Rightarrow> string list \<Rightarrow> dirtree option" where
  "descend t [] = Some t"
| "descend (Dir subdirs nondirs) (d # ds) =
     (case map_of subdirs d of None \<Rightarrow> None | Some t \<Rightarrow> descend t ds)"

definition reached :: "string list \<Rightarrow> dirtree \<Rightarrow> (string list \<times> string) set" where
  "reached excl t =
     {(ds, name).
        (\<exists>subdirs nondirs. descend t ds = Some (Dir subdirs nondirs) \<and>
                           name \<in> fst ` set subdirs \<union> set nondirs) \<and>
        list_all (\<lambda>n. \<not> skipped excl n) (ds @ [name])}"

text \<open>The path that \<open>reload_file_list\<close> stores for the entry \<open>name\<close> of the directory at \<open>ds\<close>.\<close>

definition stored_path :: "os_env \<Rightarrow> string \<Rightarrow> string \<Rightarrow> string list \<times> string \<Rightarrow> Path" where
  "stored_path env root dirpath = (\<lambda>(ds, name).
     Path_init env (realpath env (posix_join (join_all dirpath ds) name)) root)"

text \<open>
  The edges that a file owes to a list of imports, those of them that end at a given
  file, and a heap with such edges added at both ends.
\<close>

definition import_edges :: "SourceGraph \<Rightarrow> nat \<Rightarrow> Path list \<Rightarrow> Edge set" where
  "import_edges g self is =
     {\<lparr>edge_type = IMPORT, source = self, dest = d\<rparr> | i d. i \<in> set is \<and> find_file g i = Some d}"

definition edges_into :: "nat \<Rightarrow> Edge set \<Rightarrow> Edge set" where
  "edges_into a E = {e \<in> E. dest e = a}"

definition linked :: "nat \<Rightarrow> Edge set \<Rightarrow> heap \<Rightarrow> heap" where
  "linked self E h =
     (\<lambda>a. (h a)\<lparr>outgoing := outgoing (h a) \<union> (if a = self then E else {}),
                incoming := incoming (h a) \<union> edges_into a E\<rparr>)"

section \<open>Path: abbreviation\<close>

lemma length_basename_le: "length (basename p) \<le> length p"
  by (simp add: basename_def slice_from_def)

lemma suffix_count_bounds:
  assumes "16 \<le> max_len" "max_len < int (length res)"
  shows "10 \<le> suffix_count max_len rb res" "suffix_count max_len rb res \<le> int (length res)"
  using assms length_basename_le [of res]
  by (auto simp: suffix_count_def Let_def)

lemma prefix_count_eq: "prefix_count max_len sc = max 0 (max_len - sc - 2)"
  by (simp add: prefix_count_def Let_def max_def)

lemma slice_from_neg:
  "0 < sc \<Longrightarrow> sc \<le> int (length s) \<Longrightarrow> slice_from s (- sc) = drop (length s - nat sc) s"
  by (auto simp: slice_from_def slice_index_def max_def nat_diff_distrib' intro!: arg_cong2[where f=drop])

lemma slice_to_nonneg:
  "0 \<le> pc \<Longrightarrow> pc \<le> int (length s) \<Longrightarrow> slice_to s pc = take (nat pc) s"
  by (auto simp: slice_to_def slice_index_def)

lemma count_marker_ge1: "1 \<le> count_marker (xs @ ''..'' @ ys)"
  by (induction xs rule: count_marker.induct) auto

text \<open>
  Claim C7, as amended. For every path and every \<open>max_len\<close> of at least 16, with
  \<open>res\<close> the shorter of the relative and the absolute rendering: \<open>abbreviate\<close> returns
  \<open>res\<close> unchanged when it fits; otherwise it returns a prefix of \<open>res\<close>, the marker
  \<open>..\<close> and a suffix of \<open>res\<close>, where the suffix has \<open>max_len * 2 div 3\<close> characters,
  or the length of the basename when \<open>require_basename\<close> is set and the basename is
  longer than that, and the prefix has \<open>max_len - suffix - 2\<close> characters, or none when
  that is negative. The result has exactly \<open>max_len\<close> characters unless the basename
  was forced, and then it has the larger of \<open>max_len\<close> and the basename's length plus
  two. The result contains the marker at least once: the prefix and the suffix are
  copied as they are and may hold further occurrences.
\<close>

theorem abbreviate_elides:
  assumes "16 \<le> max_len" and "shortest env p = Inr res"
  shows "(int (length res) \<le> max_len \<longrightarrow> abbreviate env p max_len rb = Inr res) \<and>
         (max_len < int (length res) \<longrightarrow>
            (let budget = (max_len * 2) div 3;
                 forced = (rb \<and> budget < int (length (basename res)));
                 sc = (if forced then int (length (basename res)) else budget);
                 pc = max 0 (max_len - sc - 2);
                 pre = take (nat pc) res;
                 suf = drop (length res - nat sc) res;
                 out = pre @ ''..'' @ suf
             in abbreviate env p max_len rb = Inr out \<and>
                int (length pre) = pc \<and> int (length suf) = sc \<and>
                prefix pre res \<and> suffix suf res \<and>
                (\<not> forced \<longrightarrow> int (length out) = max_len) \<and>
                (forced \<longrightarrow> int (length out) = max max_len (int (length (basename res)) + 2)) \<and>
                1 \<le> count_marker out))"
proof (intro conjI impI)
  assume "int (length res) \<le> max_len"
  with assms show "abbreviate env p max_len rb = Inr res"
    by (simp add: abbreviate_def)
next
  assume long: "max_len < int (length res)"
  define sc where "sc = suffix_count max_len rb res"
  define pc where "pc = prefix_count max_len sc"
  have sc: "10 \<le> sc" "sc \<le> int (length res)"
    using suffix_count_bounds [OF assms(1) long, of rb] by (simp_all add: sc_def)
  have pc: "0 \<le> pc" "pc \<le> int (length res)" "pc = max 0 (max_len - sc - 2)"
    using sc long assms(1) by (auto simp: pc_def prefix_count_eq)
  have ab: "abbreviate env p max_len rb
              = Inr (take (nat pc) res @ ''..'' @ drop (length res - nat sc) res)"
    using assms long sc pc(1,2)
    by (simp add: abbreviate_def Let_def sc_def [symmetric] pc_def [symmetric]
        slice_from_neg slice_to_nonneg)
  have len_pre: "int (length (take (nat pc) res)) = pc"
    using pc by simp
  have len_suf: "int (length (drop (length res - nat sc) res)) = sc"
    using sc by simp
  have sc_eq: "sc = (if rb \<and> max_len * 2 div 3 < int (length (basename res))
                     then int (length (basename res)) else max_len * 2 div 3)"
    by (simp add: sc_def suffix_count_def Let_def)
  show "let budget = (max_len * 2) div 3;
            forced = (rb \<and> budget < int (length (basename res)));
            sc = (if forced then int (length (basename res)) else budget);
            pc = max 0 (max_len - sc - 2);
            pre = take (nat pc) res;
            suf = drop (length res - nat sc) res;
            out = pre @ ''..'' @ suf
        in abbreviate env p max_len rb = Inr out \<and>
           int (length pre) = pc \<and> int (length suf) = sc \<and>
           prefix pre res \<and> suffix suf res \<and>
           (\<not> forced \<longrightarrow> int (length out) = max_len) \<and>
           (forced \<longrightarrow> int (length out) = max max_len (int (length (basename res)) + 2)) \<and>
           1 \<le> count_marker out"
    unfolding Let_def sc_eq [symmetric] pc(3) [symmetric]
  proof (intro conjI impI)
    show "abbreviate env p max_len rb
            = Inr (take (nat pc) res @ ''..'' @ drop (length res - nat sc) res)"
      by (rule ab)
    show "int (length (take (nat pc) res)) = pc" by (rule len_pre)
    show "int (length (drop (length res - nat sc) res)) = sc" by (rule len_suf)
    show "prefix (take (nat pc) res) res" by (rule take_is_prefix)
    show "suffix (drop (length res - nat sc) res) res" by (rule suffix_drop)
    show "1 \<le> count_marker (take (nat pc) res @ ''..'' @ drop (length res - nat sc) res)"
      by (rule count_marker_ge1)
  next
    assume "\<not> (rb \<and> max_len * 2 div 3 < int (length (basename res)))"
    then have "sc = max_len * 2 div 3" using sc_eq by simp
    with assms(1) have "pc = max_len - sc - 2" using pc(3) by simp
    then show "int (length (take (nat pc) res @ ''..'' @ drop (length res - nat sc) res)) = max_len"
      using len_pre len_suf by simp
  next
    assume "rb \<and> max_len * 2 div 3 < int (length (basename res))"
    then have "sc = int (length (basename res))" using sc_eq by simp
    then show "int (length (take (nat pc) res @ ''..'' @ drop (length res - nat sc) res))
                 = max max_len (int (length (basename res)) + 2)"
      using len_pre len_suf pc(3) by simp
  qed
qed

theorem abbreviate_elides_witness:
  "(16::int) \<le> 16 \<and>
   shortest env0 \<lparr>absp = ''/this/isareally/very/annoyingly/perversely/even/path'',
                    ws_root = ''/foo''\<rparr>
     = Inr ''/this/isareally/very/annoyingly/perversely/even/path'' \<and>
   abbreviate env0 \<lparr>absp = ''/this/isareally/very/annoyingly/perversely/even/path'',
                      ws_root = ''/foo''\<rparr> 16 True
     = Inr ''/thi../even/path''"
proof -
  have s: "shortest env0 \<lparr>absp = ''/this/isareally/very/annoyingly/perversely/even/path'',
                           ws_root = ''/foo''\<rparr>
            = Inr ''/this/isareally/very/annoyingly/perversely/even/path''"
    by code_simp
  have m: "(16::int) \<le> 16" by simp
  have "abbreviate env0 \<lparr>absp = ''/this/isareally/very/annoyingly/perversely/even/path'',
                          ws_root = ''/foo''\<rparr> 16 True
          = Inr ''/thi../even/path''"
    using abbreviate_elides [OF m s, of True]
    apply (simp add: Let_def)
    by code_simp
  with s m show ?thesis by simp
qed

text \<open>
  Claim C7 as stated says that an elided result contains exactly one marker. The path
  \<open>/home/user/proj/other/some_file.py\<close> of the workspace \<open>/home/user/proj/ws\<close> is
  rendered \<open>../other/some_file.py\<close>, which is longer than 16 characters, and its
  abbreviation to 16 characters keeps the \<open>..\<close> of the prefix: two markers.
\<close>

theorem abbreviate_marker_counterexample:
  "shortest env0 \<lparr>absp = ''/home/user/proj/other/some_file.py'', ws_root = ''/home/user/proj/ws''\<rparr>
     = Inr ''../other/some_file.py'' \<and>
   abbreviate env0 \<lparr>absp = ''/home/user/proj/other/some_file.py'', ws_root = ''/home/user/proj/ws''\<rparr> 16 False
     = Inr ''../o..me_file.py'' \<and>
   count_marker ''../o..me_file.py'' = 2"
  by code_simp

section \<open>Path: in_workspace\<close>

text \<open>
  Claim C9 says that \<open>in_workspace\<close> is false for a sibling directory whose name
  starts with the root's name. The code compares the two texts: for the path
  \<open>/foobar/x\<close> and the root \<open>/foo\<close> it answers true, though the path is not under
  the root.
\<close>

theorem in_workspace_sibling:
  "in_workspace \<lparr>absp = ''/foobar/x'', ws_root = ''/foo''\<rparr> \<and>
   \<not> under_root_spec \<lparr>absp = ''/foobar/x'', ws_root = ''/foo''\<rparr>"
  by code_simp

section \<open>Workspace: reloading the file list\<close>

lemma notify_all:
  "\<forall>l \<in> set ls. \<forall>v. fst (l removed added v) = None \<Longrightarrow>
   notify ls removed added w = (None, foldl (\<lambda>v l. snd (l removed added v)) w ls)"
proof (induction ls arbitrary: w)
  case Nil
  then show ?case by simp
next
  case (Cons l ls)
  then have "fst (l removed added w) = None" by simp
  then obtain w' where lw: "l removed added w = (None, w')" by (cases "l removed added w") auto
  with Cons show ?case by simp
qed

lemma notify_raises:
  assumes "\<forall>l' \<in> set pre. \<forall>v. fst (l' removed added v) = None"
    and "l removed added (foldl (\<lambda>v l. snd (l removed added v)) w pre) = (Some e, w')"
  shows "notify (pre @ l # post) removed added w = (Some e, w')"
  using assms
proof (induction pre arbitrary: w)
  case Nil
  then show ?case by simp
next
  case (Cons a pre)
  then have "fst (a removed added w) = None" by simp
  then obtain w1 where aw: "a removed added w = (None, w1)" by (cases "a removed added w") auto
  with Cons show ?case by simp
qed

lemma list_files_disk2:
  "list_files env0 disk2 (ws1 ls)
     = {in_t ''foo'', in_t ''dir1'', in_t ''dir1/file1'', in_t ''dir1/file2'', in_t ''dir2''}"
  by code_simp

lemma removed_disk2: "files (ws1 ls) - list_files env0 disk2 (ws1 ls) = {in_t ''dir2/file1''}"
  by code_simp

lemma added_disk2: "list_files env0 disk2 (ws1 ls) - files (ws1 ls) = {in_t ''dir1/file2''}"
  by code_simp

lemma file_listeners_ws1: "file_listeners (ws1 ls) = ls"
  by (simp add: ws1_def)

text \<open>
  Claim C5, as amended. Every call of \<open>reload_file_list\<close> stores the newly walked set;
  and a call whose listeners all return runs every listener once, in the order of the
  list, each with the old files that are no longer there and the new files that were
  not there before (both empty or not): the state the listeners leave is the state
  each of them, in turn, makes of the state before it.
\<close>

theorem reload_notifies_all:
  "fst (snd (reload_file_list env tree ws w)) = ws\<lparr>files := list_files env tree ws\<rparr> \<and>
   (let new_files = list_files env tree ws;
        removed = files ws - new_files;
        added = new_files - files ws
    in (\<forall>l \<in> set (file_listeners ws). \<forall>v. fst (l removed added v) = None) \<longrightarrow>
       reload_file_list env tree ws w =
         (None, ws\<lparr>files := new_files\<rparr>,
          foldl (\<lambda>v l. snd (l removed added v)) w (file_listeners ws)))"
proof (intro conjI)
  show "fst (snd (reload_file_list env tree ws w)) = ws\<lparr>files := list_files env tree ws\<rparr>"
    by (simp add: reload_file_list_def Let_def split: prod.splits)
next
  define new_files where "new_files = list_files env tree ws"
  define removed where "removed = files ws - new_files"
  define added where "added = new_files - files ws"
  have "reload_file_list env tree ws w =
          (None, ws\<lparr>files := new_files\<rparr>,
           foldl (\<lambda>v l. snd (l removed added v)) w (file_listeners ws))"
    if "\<forall>l \<in> set (file_listeners ws). \<forall>v. fst (l removed added v) = None"
    using notify_all [OF that, of w]
    by (simp add: reload_file_list_def Let_def new_files_def removed_def added_def)
  then show "let new_files = list_files env tree ws;
                 removed = files ws - new_files;
                 added = new_files - files ws
             in (\<forall>l \<in> set (file_listeners ws). \<forall>v. fst (l removed added v) = None) \<longrightarrow>
                reload_file_list env tree ws w =
                  (None, ws\<lparr>files := new_files\<rparr>,
                   foldl (\<lambda>v l. snd (l removed added v)) w (file_listeners ws))"
    by (simp add: Let_def new_files_def removed_def added_def)
qed

theorem reload_notifies_all_witness:
  "reload_file_list env0 disk2 (ws1 [log_call 1, log_call 2]) []
     = (None,
        (ws1 [log_call 1, log_call 2])
          \<lparr>files := {in_t ''foo'', in_t ''dir1'', in_t ''dir1/file1'', in_t ''dir1/file2'', in_t ''dir2''}\<rparr>,
        [(1, {in_t ''dir2/file1''}, {in_t ''dir1/file2''}),
         (2, {in_t ''dir2/file1''}, {in_t ''dir1/file2''})])"
proof -
  have h: "\<forall>l \<in> set (file_listeners (ws1 [log_call 1, log_call 2])).
             \<forall>v. fst (l {in_t ''dir2/file1''} {in_t ''dir1/file2''} v) = None"
    by (simp add: ws1_def log_call_def)
  show ?thesis
    using reload_notifies_all [of env0 disk2 "ws1 [log_call 1, log_call 2]" "[]"] h
    by (simp only: Let_def removed_disk2 added_disk2)
       (simp add: list_files_disk2 log_call_def file_listeners_ws1)
qed

text \<open>
  Claim C5 as stated says that every call runs every registered listener. In the
  directory of the example, with a first listener that raises and a second that
  records its call, the call ends with the exception of the first and the second has
  recorded nothing.
\<close>

theorem reload_notifies_all_counterexample:
  "reload_file_list env0 disk2 (ws1 [failing_call 1, log_call 2]) []
     = (Some (OtherError ''listener''),
        (ws1 [failing_call 1, log_call 2])
          \<lparr>files := {in_t ''foo'', in_t ''dir1'', in_t ''dir1/file1'', in_t ''dir1/file2'', in_t ''dir2''}\<rparr>,
        [(1, {in_t ''dir2/file1''}, {in_t ''dir1/file2''})])"
  by (simp only: reload_file_list_def Let_def removed_disk2 added_disk2)
     (simp add: file_listeners_ws1 failing_call_def list_files_disk2)

text \<open>
  Claim C10. When a listener raises, after the listeners before it have returned, the
  call raises its exception; the workspace holds the newly walked set all the same,
  and the listeners after it have not run: the state the listeners act on is left as
  the raising listener left it, whatever the listeners after it are.
\<close>

theorem reload_listener_raises:
  assumes "file_listeners ws = pre @ l # post"
    and "removed = files ws - list_files env tree ws"
    and "added = list_files env tree ws - files ws"
    and "\<forall>l' \<in> set pre. \<forall>v. fst (l' removed added v) = None"
    and "l removed added (foldl (\<lambda>v l. snd (l removed added v)) w pre) = (Some e, w')"
  shows "reload_file_list env tree ws w = (Some e, ws\<lparr>files := list_files env tree ws\<rparr>, w')"
proof -
  from assms(4,5) have "notify (pre @ l # post) removed added w = (Some e, w')"
    by (rule notify_raises)
  with assms(1,2,3) show ?thesis
    by (simp add: reload_file_list_def Let_def)
qed

theorem reload_listener_raises_witness:
  "reload_file_list env0 disk2 (ws1 [log_call 1, failing_call 2, log_call 3]) []
     = (Some (OtherError ''listener''),
        (ws1 [log_call 1, failing_call 2, log_call 3])
          \<lparr>files := {in_t ''foo'', in_t ''dir1'', in_t ''dir1/file1'', in_t ''dir1/file2'', in_t ''dir2''}\<rparr>,
        [(1, {in_t ''dir2/file1''}, {in_t ''dir1/file2''}),
         (2, {in_t ''dir2/file1''}, {in_t ''dir1/file2''})])"
proof -
  let ?ws = "ws1 [log_call 1, failing_call 2, log_call 3]"
  have h1: "file_listeners ?ws = [log_call 1] @ failing_call 2 # [log_call 3]"
    by (simp add: ws1_def)
  have h2: "{in_t ''dir2/file1''} = files ?ws - list_files env0 disk2 ?ws"
    by (simp only: removed_disk2)
  have h3: "{in_t ''dir1/file2''} = list_files env0 disk2 ?ws - files ?ws"
    by (simp only: added_disk2)
  have h4: "\<forall>l' \<in> set [log_call 1].
              \<forall>v. fst (l' {in_t ''dir2/file1''} {in_t ''dir1/file2''} v) = None"
    by (simp add: log_call_def)
  have h5: "failing_call 2 {in_t ''dir2/file1''} {in_t ''dir1/file2''}
              (foldl (\<lambda>v l. snd (l {in_t ''dir2/file1''} {in_t ''dir1/file2''} v)) [] [log_call 1])
            = (Some (OtherError ''listener''),
               [(1, {in_t ''dir2/file1''}, {in_t ''dir1/file2''}),
                (2, {in_t ''dir2/file1''}, {in_t ''dir1/file2''})])"
    by (simp add: log_call_def failing_call_def)
  show ?thesis
    using reload_listener_raises [OF h1 h2 h3 h4 h5]
    by (simp add: list_files_disk2)
qed

section \<open>Workspace: hidden and excluded names\<close>

lemma filter_remove1_skipped: "\<not> P x \<Longrightarrow> filter P (remove1 x s) = filter P s"
  by (induction s) auto

lemma count_list_remove1:
  "count_list (remove1 x s) n = (if x = n then count_list s n - 1 else count_list s n)"
  by (induction s) auto

lemma prune_loop:
  "(\<And>n. skipped excl n \<Longrightarrow> count_list s n \<le> count_list xs n) \<Longrightarrow>
   fold (\<lambda>name ds. if skipped excl name then remove1 name ds else ds) xs s
     = filter (\<lambda>d. \<not> skipped excl d) s"
proof (induction xs arbitrary: s)
  case Nil
  then have "\<And>n. skipped excl n \<Longrightarrow> n \<notin> set s"
    by (metis count_list.simps(1) count_list_0_iff le_zero_eq)
  then have "filter (\<lambda>d. \<not> skipped excl d) s = s"
    by (induction s) auto
  then show ?case by simp
next
  case (Cons x xs)
  show ?case
  proof (cases "skipped excl x")
    case True
    have "\<And>n. skipped excl n \<Longrightarrow> count_list (remove1 x s) n \<le> count_list xs n"
    proof -
      fix n assume "skipped excl n"
      then have "count_list s n \<le> count_list (x # xs) n" by (rule Cons.prems)
      then show "count_list (remove1 x s) n \<le> count_list xs n"
        by (auto simp: count_list_remove1)
    qed
    from Cons.IH [OF this] True show ?thesis
      by (simp add: filter_remove1_skipped)
  next
    case False
    have "\<And>n. skipped excl n \<Longrightarrow> count_list s n \<le> count_list xs n"
      using Cons.prems False by (metis count_list.simps(2))
    from Cons.IH [OF this] False show ?thesis by simp
  qed
qed

lemma prune_filter: "prune excl ds = filter (\<lambda>d. \<not> skipped excl d) ds"
  unfolding prune_def by (rule prune_loop) simp

lemma add_entries_eq:
  "add_entries env excl root dirpath names S
     = S \<union> (\<lambda>name. stored_path env root dirpath ([], name)) ` {name \<in> set names. \<not> skipped excl name}"
  unfolding add_entries_def
  by (induction names arbitrary: S) (auto simp: stored_path_def join_all_def)

lemma fold_union:
  "(\<And>name fs. name \<in> set names \<Longrightarrow> f name fs = fs \<union> G name) \<Longrightarrow>
   fold f names S = S \<union> (\<Union>name \<in> set names. G name)"
proof (induction names arbitrary: S)
  case Nil
  then show ?case by simp
next
  case (Cons a names)
  have "fold f names (f a S) = f a S \<union> (\<Union>name \<in> set names. G name)"
    by (rule Cons.IH) (simp add: Cons.prems)
  moreover have "f a S = S \<union> G a" by (rule Cons.prems) simp
  ultimately show ?case by auto
qed

lemma stored_path_step:
  "stored_path env root dirpath (d # ds, name) = stored_path env root (posix_join dirpath d) (ds, name)"
  by (simp add: stored_path_def join_all_def)

lemma reached_Dir:
  "reached excl (Dir subdirs nondirs) =
     (\<lambda>name. ([], name)) ` {name \<in> fst ` set subdirs \<union> set nondirs. \<not> skipped excl name}
     \<union> (\<Union>d \<in> {d \<in> fst ` set subdirs. \<not> skipped excl d}.
          case map_of subdirs d of
            None \<Rightarrow> {}
          | Some t \<Rightarrow> (\<lambda>(ds, name). (d # ds, name)) ` reached excl t)"
  (is "?L = ?A \<union> ?B")
proof (intro set_eqI iffI)
  fix x assume "x \<in> ?L"
  obtain ds name where x: "x = (ds, name)" by (cases x)
  with \<open>x \<in> ?L\<close>
  have d: "\<exists>sd nd. descend (Dir subdirs nondirs) ds = Some (Dir sd nd) \<and> name \<in> fst ` set sd \<union> set nd"
    and v: "list_all (\<lambda>n. \<not> skipped excl n) (ds @ [name])"
    by (simp_all add: reached_def)
  show "x \<in> ?A \<union> ?B"
  proof (cases ds)
    case Nil
    with x d v show ?thesis by auto
  next
    case (Cons d0 ds')
    with d obtain t where t: "map_of subdirs d0 = Some t"
      and d': "\<exists>sd nd. descend t ds' = Some (Dir sd nd) \<and> name \<in> fst ` set sd \<union> set nd"
      by (auto split: option.splits)
    from t have "d0 \<in> fst ` set subdirs" by (metis map_of_eq_None_iff option.distinct(1))
    moreover from v Cons have "\<not> skipped excl d0" "list_all (\<lambda>n. \<not> skipped excl n) (ds' @ [name])"
      by simp_all
    moreover from this d' have "(ds', name) \<in> reached excl t" by (simp add: reached_def)
    ultimately have "d0 \<in> {d \<in> fst ` set subdirs. \<not> skipped excl d}"
      and "x \<in> (case map_of subdirs d0 of None \<Rightarrow> {}
                 | Some t \<Rightarrow> (\<lambda>(ds, name). (d0 # ds, name)) ` reached excl t)"
      using t x Cons by (auto simp: image_iff intro!: bexI [where x = "(ds', name)"])
    then have "x \<in> ?B" by (rule UN_I)
    then show ?thesis by simp
  qed
next
  fix x assume "x \<in> ?A \<union> ?B"
  then show "x \<in> ?L"
  proof
    assume "x \<in> ?A"
    then obtain name where "x = ([], name)" "name \<in> fst ` set subdirs \<union> set nondirs"
      "\<not> skipped excl name" by blast
    moreover have "descend (Dir subdirs nondirs) [] = Some (Dir subdirs nondirs)" by simp
    ultimately show ?thesis unfolding reached_def by (simp del: descend.simps)
  next
    assume "x \<in> ?B"
    then obtain d where d: "d \<in> {d \<in> fst ` set subdirs. \<not> skipped excl d}"
      and xd: "x \<in> (case map_of subdirs d of None \<Rightarrow> {}
                      | Some t \<Rightarrow> (\<lambda>(ds, name). (d # ds, name)) ` reached excl t)"
      by (rule UN_E)
    from xd obtain t where t: "map_of subdirs d = Some t"
      and xt: "x \<in> (\<lambda>(ds, name). (d # ds, name)) ` reached excl t"
      by (cases "map_of subdirs d") simp_all
    from xt obtain ds name where r: "(ds, name) \<in> reached excl t" and x: "x = (d # ds, name)"
      by (auto simp: image_iff)
    from r d t x show ?thesis by (simp add: reached_def)
  qed
qed

lemma walk_files_eq:
  "walk_files env excl root dirpath t S = S \<union> stored_path env root dirpath ` reached excl t"
proof (induction env excl root dirpath t S rule: walk_files.induct)
  case (1 env excl root dirpath subdirs nondirs new_files)
  define dirnames where "dirnames = prune excl (map fst subdirs)"
  define S' where "S' = add_entries env excl root dirpath (dirnames @ nondirs) new_files"
  let ?f = "\<lambda>name fs. case map_of subdirs name of None \<Rightarrow> fs
              | Some t \<Rightarrow> walk_files env excl root (posix_join dirpath name) t fs"
  let ?G = "\<lambda>d. case map_of subdirs d of None \<Rightarrow> {}
              | Some t \<Rightarrow> stored_path env root dirpath ` (\<lambda>(ds, name). (d # ds, name)) ` reached excl t"
  have dn: "set dirnames = {d \<in> fst ` set subdirs. \<not> skipped excl d}"
    by (auto simp: dirnames_def prune_filter)
  have step: "?f name fs = fs \<union> ?G name" if "name \<in> set dirnames" for name fs
  proof (cases "map_of subdirs name")
    case None
    then show ?thesis by simp
  next
    case (Some t)
    have "walk_files env excl root (posix_join dirpath name) t fs
            = fs \<union> stored_path env root (posix_join dirpath name) ` reached excl t"
      using "1.IH" [OF dirnames_def S'_def that Some] .
    also have "stored_path env root (posix_join dirpath name) ` reached excl t
                 = stored_path env root dirpath ` (\<lambda>(ds, n). (name # ds, n)) ` reached excl t"
      by (auto simp: image_image stored_path_step split_beta intro!: image_cong)
    finally show ?thesis using Some by simp
  qed
  have "fold ?f dirnames S' = S' \<union> (\<Union>d \<in> set dirnames. ?G d)"
    by (rule fold_union) (rule step)
  moreover have "S' = new_files \<union> (\<lambda>name. stored_path env root dirpath ([], name))
                   ` {name \<in> fst ` set subdirs \<union> set nondirs. \<not> skipped excl name}"
    unfolding S'_def add_entries_eq using dn by auto
  moreover have "stored_path env root dirpath ` reached excl (Dir subdirs nondirs)
        = (\<lambda>name. stored_path env root dirpath ([], name))
                   ` {name \<in> fst ` set subdirs \<union> set nondirs. \<not> skipped excl name}
          \<union> (\<Union>d \<in> set dirnames. ?G d)"
  proof -
    have "stored_path env root dirpath
            ` (\<Union>d \<in> set dirnames.
                 case map_of subdirs d of
                   None \<Rightarrow> {}
                 | Some t \<Rightarrow> (\<lambda>(ds, name). (d # ds, name)) ` reached excl t)
          = (\<Union>d \<in> set dirnames. ?G d)"
      unfolding image_UN by (rule SUP_cong) (simp_all split: option.splits)
    then show ?thesis
      unfolding reached_Dir image_Un dn by (simp add: image_image)
  qed
  ultimately show ?case
    by (simp add: walk_files.simps [of env excl root dirpath subdirs nondirs new_files]
        Let_def dirnames_def [symmetric] S'_def [symmetric] Un_assoc)
qed

lemma list_files_eq:
  "list_files env tree ws =
     (case tree (root_dir ws) of
        None \<Rightarrow> {}
      | Some t \<Rightarrow> stored_path env (root_dir ws) (root_dir ws) ` reached (exclude_files ws) t)"
  by (simp add: list_files_def Let_def walk_files_eq split: option.splits)

text \<open>
  Claim C6, as amended. After a reload, whether its listeners return or not, \<open>files\<close> is
  exactly the set of the paths \<open>realpath (root/d1/.../dk/name)\<close> of the entries \<open>name\<close>
  (files and directories) that the tree lists in a directory reached from the root
  through the subdirectories \<open>d1\<close>, ..., \<open>dk\<close>, where none of \<open>d1\<close>, ..., \<open>dk\<close>, \<open>name\<close> starts
  with a dot or is in \<open>exclude_files\<close>. So a hidden or excluded directory is neither
  stored nor entered, and an entry below it is not stored under the name that leads
  through it. The path stored is the canonical one, which need not be the path under
  which the walk met the entry.
\<close>

theorem reload_skips_hidden:
  "files (fst (snd (reload_file_list env tree ws w))) =
     (case tree (root_dir ws) of
        None \<Rightarrow> {}
      | Some t \<Rightarrow>
          (\<lambda>(ds, name).
             Path_init env (realpath env (posix_join (join_all (root_dir ws) ds) name)) (root_dir ws))
          ` {(ds, name).
               (\<exists>subdirs nondirs. descend t ds = Some (Dir subdirs nondirs) \<and>
                                  name \<in> fst ` set subdirs \<union> set nondirs) \<and>
               list_all (\<lambda>n. \<not> prefix ''.'' n \<and> n \<notin> set (exclude_files ws)) (ds @ [name])})"
proof -
  have "files (fst (snd (reload_file_list env tree ws w))) = list_files env tree ws"
    by (simp add: reload_file_list_def Let_def split: prod.splits)
  then show ?thesis
    by (simp add: list_files_eq stored_path_def reached_def skipped_def split: option.splits)
qed

theorem reload_skips_hidden_witness:
  "(\<lambda>(ds, name). Path_init env0 (realpath env0 (posix_join (join_all ''/tmp/t'' ds) name)) ''/tmp/t'')
     ` {(ds, name).
          (\<exists>subdirs nondirs. descend tree1 ds = Some (Dir subdirs nondirs) \<and>
                             name \<in> fst ` set subdirs \<union> set nondirs) \<and>
          list_all (\<lambda>n. \<not> prefix ''.'' n \<and> n \<notin> set [''dir2'']) (ds @ [name])}
     = {in_t ''foo'', in_t ''dir1'', in_t ''dir1/file1''}"
proof -
  have f: "files (fst (snd (reload_file_list env0 disk1 ws_excl ())))
             = {in_t ''foo'', in_t ''dir1'', in_t ''dir1/file1''}"
    by code_simp
  have r: "root_dir ws_excl = ''/tmp/t''" by code_simp
  have x: "exclude_files ws_excl = [''dir2'']" by code_simp
  have d: "disk1 ''/tmp/t'' = Some tree1" by (simp add: disk1_def)
  show ?thesis
    using reload_skips_hidden [of env0 disk1 ws_excl "()"]
    unfolding f r x d option.case by (rule sym)
qed

text \<open>
  Claim C6 as stated, that no entry of \<open>files\<close> has a name that starts with a dot or is
  in \<open>exclude_files\<close> and that nothing below a hidden or excluded directory appears,
  fails where a symbolic link with a visible name leads to such a place. The root of
  the tests has, besides \<open>dir1\<close>, \<open>dir2\<close>, \<open>.hidden\<close> and \<open>foo\<close>, the links \<open>link\<close> to
  \<open>.hidden/not_hidden\<close> and \<open>dlink\<close> to \<open>dir2\<close>, and \<open>dir2\<close> is excluded: after the reload
  \<open>files\<close> holds the path of \<open>dir2\<close>, whose name is excluded, and the path of
  \<open>.hidden/not_hidden\<close>, which is below a hidden directory.
\<close>

theorem reload_skips_hidden_counterexample:
  "files (fst (snd (reload_file_list env_links disk_links ws_excl ())))
     = {in_t ''foo'', in_t ''dir1'', in_t ''dir1/file1'', in_t ''.hidden/not_hidden'', in_t ''dir2''} \<and>
   basename (absp (in_t ''dir2'')) \<in> set (exclude_files ws_excl) \<and>
   prefix ''.'' (basename (dirname (absp (in_t ''.hidden/not_hidden''))))"
  by code_simp

section \<open>Workspace: the setters\<close>

lemma map_of_dict_set: "map_of (dict_set k v kvs) = (map_of kvs)(k \<mapsto> v)"
  by (induction kvs) (auto simp: fun_eq_iff)

text \<open>
  Claim C8, as amended. Both setters put the new value under their key of the
  configuration in memory, whatever the disk is. Where the workspace directory is not
  a directory of the disk, they leave the disk as it is (no directory and no file
  appears) and log nothing. Where it is one and the file \<open>config\<close> in it can be opened
  for writing, that file then holds the new configuration as \<open>json.dumps\<close> with an
  indent of four prints it. Where the file cannot be opened, the disk is left as it
  is, the failure is logged as an error, and the setter returns. (The setter of
  \<open>open_files\<close> stores the paths relative to the root, \<open>rs\<close>, when each path has one.)
\<close>

theorem setters_write_config:
  "(let cp = posix_join (workspace_dir ws) ''config'';
        cfg1 = dict_set ''root_dir'' (JStr root) (config ws);
        cfg2 = dict_set ''open_files'' (JList (map JStr rs)) (config ws)
    in map_of cfg1 = (map_of (config ws))(''root_dir'' \<mapsto> JStr root) \<and>
       map_of cfg2 = (map_of (config ws))(''open_files'' \<mapsto> JList (map JStr rs)) \<and>
       (workspace_dir ws \<notin> dirs d \<longrightarrow>
          set_root_dir d ws root lg = (ws\<lparr>config := cfg1\<rparr>, d, lg) \<and>
          (rels env ps = Inr rs \<longrightarrow>
             set_open_files env d ws ps lg = (None, ws\<lparr>config := cfg2\<rparr>, d, lg))) \<and>
       (workspace_dir ws \<in> dirs d \<and> writable d cp \<longrightarrow>
          set_root_dir d ws root lg
            = (ws\<lparr>config := cfg1\<rparr>,
               d\<lparr>contents := (contents d)(cp \<mapsto> json_dumps cfg1)\<rparr>, lg) \<and>
          (rels env ps = Inr rs \<longrightarrow>
             set_open_files env d ws ps lg
               = (None, ws\<lparr>config := cfg2\<rparr>,
                  d\<lparr>contents := (contents d)(cp \<mapsto> json_dumps cfg2)\<rparr>, lg))) \<and>
       (workspace_dir ws \<in> dirs d \<and> \<not> writable d cp \<longrightarrow>
          set_root_dir d ws root lg
            = (ws\<lparr>config := cfg1\<rparr>, d, lg @ [(ERROR, Failed_to_write cp IOError)]) \<and>
          (rels env ps = Inr rs \<longrightarrow>
             set_open_files env d ws ps lg
               = (None, ws\<lparr>config := cfg2\<rparr>, d,
                  lg @ [(ERROR, Failed_to_write cp IOError)]))))"
  by (simp add: Let_def map_of_dict_set set_root_dir_def set_open_files_def write_config_def)

lemma rels_example: "rels env0 [in_t ''foo'', in_t ''bar''] = Inr [''foo'', ''bar'']"
  by code_simp

lemma dumps_example:
  "json_dumps [(''open_files'', JList [JStr ''foo'', JStr ''bar''])]
     = ''{'' @ [CHR 0x0A] @ ''    '' @ [CHR 0x22] @ ''open_files'' @ [CHR 0x22] @ '': ['' @ [CHR 0x0A]
       @ ''        '' @ [CHR 0x22] @ ''foo'' @ [CHR 0x22] @ '','' @ [CHR 0x0A]
       @ ''        '' @ [CHR 0x22] @ ''bar'' @ [CHR 0x22] @ [CHR 0x0A]
       @ ''    ]'' @ [CHR 0x0A] @ ''}''"
  by code_simp

theorem setters_write_config_witness:
  "set_open_files env0 disk_without ws0 [in_t ''foo'', in_t ''bar''] []
     = (None, ws0\<lparr>config := [(''open_files'', JList [JStr ''foo'', JStr ''bar''])]\<rparr>,
        disk_without, []) \<and>
   set_open_files env0 disk_with ws0 [in_t ''foo'', in_t ''bar''] []
     = (None, ws0\<lparr>config := [(''open_files'', JList [JStr ''foo'', JStr ''bar''])]\<rparr>,
        disk_with\<lparr>contents := [''/tmp/t/.workspace/config'' \<mapsto>
          ''{'' @ [CHR 0x0A] @ ''    '' @ [CHR 0x22] @ ''open_files'' @ [CHR 0x22] @ '': ['' @ [CHR 0x0A]
          @ ''        '' @ [CHR 0x22] @ ''foo'' @ [CHR 0x22] @ '','' @ [CHR 0x0A]
          @ ''        '' @ [CHR 0x22] @ ''bar'' @ [CHR 0x22] @ [CHR 0x0A]
          @ ''    ]'' @ [CHR 0x0A] @ ''}'']\<rparr>,
        [])"
proof -
  have a: "workspace_dir ws0 \<notin> dirs disk_without"
    by (simp add: ws0_def disk_without_def)
  have b: "workspace_dir ws0 \<in> dirs disk_with \<and> writable disk_with (posix_join (workspace_dir ws0) ''config'')"
    by (simp add: ws0_def disk_with_def)
  have cp: "posix_join (workspace_dir ws0) ''config'' = ''/tmp/t/.workspace/config''"
    by code_simp
  have cfg: "dict_set ''open_files'' (JList [JStr ''foo'', JStr ''bar'']) (config ws0)
               = [(''open_files'', JList [JStr ''foo'', JStr ''bar''])]"
    by (simp add: ws0_def)
  have c: "contents disk_with = Map.empty"
    by (simp add: disk_with_def)
  from setters_write_config [of ws0 "''/tmp/t''" "[''foo'', ''bar'']" disk_without "[]" env0
      "[in_t ''foo'', in_t ''bar'']"] a rels_example
  have 1: "set_open_files env0 disk_without ws0 [in_t ''foo'', in_t ''bar''] []
     = (None, ws0\<lparr>config := [(''open_files'', JList [JStr ''foo'', JStr ''bar''])]\<rparr>,
        disk_without, [])"
    by (simp add: Let_def cfg)
  from setters_write_config [of ws0 "''/tmp/t''" "[''foo'', ''bar'']" disk_with "[]" env0
      "[in_t ''foo'', in_t ''bar'']"] b rels_example
  have 2: "set_open_files env0 disk_with ws0 [in_t ''foo'', in_t ''bar''] []
     = (None, ws0\<lparr>config := [(''open_files'', JList [JStr ''foo'', JStr ''bar''])]\<rparr>,
        disk_with\<lparr>contents := [''/tmp/t/.workspace/config'' \<mapsto>
           json_dumps [(''open_files'', JList [JStr ''foo'', JStr ''bar''])]]\<rparr>, [])"
    by (simp add: Let_def cfg cp c)
  from 1 2 show ?thesis
    by (simp only: dumps_example)
qed

text \<open>
  Claim C8 as stated says that the new configuration is persisted whenever the
  workspace directory exists. On a disk that has the directory but refuses to open
  the file \<open>config\<close> for writing, the setter of \<open>root_dir\<close> changes the configuration in
  memory, logs the failure and leaves the disk without that file.
\<close>

theorem setters_write_config_counterexample:
  "workspace_dir ws0 \<in> dirs disk_locked \<and>
   set_root_dir disk_locked ws0 ''/tmp/t'' []
     = (ws0\<lparr>config := [(''root_dir'', JStr ''/tmp/t'')]\<rparr>, disk_locked,
        [(ERROR, Failed_to_write ''/tmp/t/.workspace/config'' IOError)]) \<and>
   contents disk_locked ''/tmp/t/.workspace/config'' = None"
proof -
  have cp: "posix_join (workspace_dir ws0) ''config'' = ''/tmp/t/.workspace/config''"
    by code_simp
  show ?thesis
    by (simp add: set_root_dir_def write_config_def Let_def cp)
       (simp add: ws0_def disk_locked_def)
qed

section \<open>Loading a file\<close>

lemma set_update_imports:
  "set (update_imports env root paths acc)
     = set acc \<union> (\<lambda>p. Path_init env (realpath env p) root) ` set paths"
  unfolding update_imports_def
  by (induction paths arbitrary: acc) auto

lemma distinct_update_imports:
  "distinct acc \<Longrightarrow> distinct (update_imports env root paths acc)"
  unfolding update_imports_def
  by (induction paths arbitrary: acc) auto

lemma resolve_all_recovers:
  assumes "raises_only_ImportError r finder (python_path ws) ps"
  shows "fst (resolve_all r finder env ws sp ps acc lg) = None \<and>
         set (fst (snd (resolve_all r finder env ws sp ps acc lg)))
           = set acc \<union> (\<Union>(name, m) \<in> set ps. contributes r finder env ws name) \<and>
         snd (snd (resolve_all r finder env ws sp ps acc lg))
           = lg @ concat (map (\<lambda>(name, m). if m then [] else failure_record r finder ws sp name) ps)"
  using assms
proof (induction ps arbitrary: acc lg)
  case Nil
  then show ?case by simp
next
  case (Cons a ps)
  obtain name m where a: "a = (name, m)" by (cases a)
  from Cons.prems have rest: "raises_only_ImportError r finder (python_path ws) ps"
    by (simp add: raises_only_ImportError_def)
  note IH = Cons.IH [OF rest]
  show ?case
  proof (cases "r name finder (python_path ws)")
    case (Inr paths)
    with a IH [of "update_imports env (root_dir ws) paths acc" lg] show ?thesis
      by (simp add: set_update_imports Un_assoc contributes_def failure_record_def)
  next
    case (Inl e)
    with Cons.prems a obtain msg where e: "e = ImportError msg"
      by (cases e) (auto simp: raises_only_ImportError_def only_ImportError_def)
    with Inl a IH [of acc "if \<not> m then lg @ [(INFO, Failed_to_resolve sp name (ImportError msg))] else lg"]
    show ?thesis by (simp add: contributes_def failure_record_def)
  qed
qed

text \<open>The names of the nodes of a tree, node by node.\<close>

lemma parsed_imports_append: "parsed_imports (ns @ ms) = parsed_imports ns @ parsed_imports ms"
  by (induction ns rule: parsed_imports.induct) simp_all

lemma contributes_nodes:
  "(\<Union>(name, m) \<in> set (parsed_imports tree). contributes r finder env ws name)
     = (\<Union>n \<in> set tree.
          case n of
            Import names \<Rightarrow> (\<Union>name \<in> set names. contributes r finder env ws (Some name))
          | ImportFrom modname names \<Rightarrow>
              contributes r finder env ws modname \<union>
              (\<Union>name \<in> set names.
                 contributes r finder env ws
                   (Some ((case modname of None \<Rightarrow> ''None'' | Some s \<Rightarrow> s) @ ''.'' @ name)))
          | Other_node \<Rightarrow> {})"
  by (induction tree rule: parsed_imports.induct)
     (auto simp: format_dotted_def)

lemma failures_nodes:
  "concat (map (\<lambda>(name, m). if m then [] else failure_record r finder ws sp name) (parsed_imports tree))
     = concat (map (\<lambda>n.
          case n of
            Import names \<Rightarrow> concat (map (\<lambda>name. failure_record r finder ws sp (Some name)) names)
          | ImportFrom modname names \<Rightarrow> failure_record r finder ws sp modname
          | Other_node \<Rightarrow> []) tree)"
proof (induction tree rule: parsed_imports.induct)
  case (2 names ns)
  then show ?case by (simp add: comp_def)
next
  case (3 modname names ns)
  have "concat (map (\<lambda>(name, m). if m then [] else failure_record r finder ws sp name)
          (map (\<lambda>name. (Some (format_dotted modname name), True)) names)) = []"
    by (induction names) simp_all
  with 3 show ?case by simp
qed simp_all

lemma only_nodes:
  "list_all (\<lambda>n.
      case n of
        Import names \<Rightarrow> list_all (\<lambda>name. only_ImportError r finder search (Some name)) names
      | ImportFrom modname names \<Rightarrow>
          only_ImportError r finder search modname \<and>
          list_all (\<lambda>name. only_ImportError r finder search
                      (Some ((case modname of None \<Rightarrow> ''None'' | Some s \<Rightarrow> s) @ ''.'' @ name))) names
      | Other_node \<Rightarrow> True) tree
   \<Longrightarrow> raises_only_ImportError r finder search (parsed_imports tree)"
  by (induction tree rule: parsed_imports.induct)
     (auto simp: raises_only_ImportError_def format_dotted_def list_all_iff)
lemma root_dir_ws0: "root_dir ws0 = ''/tmp/t''"
  by code_simp

lemma python_path_ws0: "python_path ws0 = []"
  by code_simp

text \<open>
  Claim C3, as amended. For a file that can be read and on whose text the parser
  raises: if what it raises is SyntaxError, constructing the \<open>PyFile\<close> (which loads it)
  returns without an exception a file with no imports and no edges, and logs one
  record, at level info; nothing else is changed, so the files loaded next are loaded
  as they would be without it. If the parser raises anything else, that exception
  leaves the constructor and nothing is logged.
\<close>

theorem load_unparsable:
  assumes "read_file penv (absp p) = Some text" and "ast_parse penv text = Inl e"
  shows "PyFile_init r finder penv env p ws False lg
           = (if e = SyntaxError
              then (None, \<lparr>path = p, imports' = [], outgoing = {}, incoming = {}\<rparr>,
                    lg @ [(INFO, Couldnt_parse p SyntaxError)])
              else (Some e, \<lparr>path = p, imports' = [], outgoing = {}, incoming = {}\<rparr>, lg))"
  using assms by (cases e) (simp_all add: PyFile_init_def load_def)

theorem load_unparsable_witness:
  "PyFile_init resolve_import modules (penv_of ''invalid python'') env0 src ws0 False []
     = (None, \<lparr>path = src, imports' = [], outgoing = {}, incoming = {}\<rparr>,
        [(INFO, Couldnt_parse src SyntaxError)])"
proof -
  have h1: "read_file (penv_of ''invalid python'') (absp src) = Some ''invalid python''"
    by (simp add: penv_of_def src_def)
  have h2: "ast_parse (penv_of ''invalid python'') ''invalid python'' = Inl SyntaxError"
    by (simp add: penv_of_def)
  show ?thesis
    using load_unparsable [OF h1 h2, of resolve_import modules env0 ws0 "[]"] by simp
qed

text \<open>
  Claim C3 as stated, that no exception escapes the load of a file whose text fails to
  parse, fails for a text on which the parser raises something other than SyntaxError.
  On the text that is one NUL character \<open>ast.parse\<close> raises ValueError (before Python
  3.12): the constructor raises it, and the log is left empty.
\<close>

theorem load_unparsable_counterexample:
  "read_file (penv_of [CHR 0x00]) (absp src) = Some [CHR 0x00] \<and>
   ast_parse (penv_of [CHR 0x00]) [CHR 0x00] = Inl ValueError \<and>
   PyFile_init resolve_import modules (penv_of [CHR 0x00]) env0 src ws0 False []
     = (Some ValueError, \<lparr>path = src, imports' = [], outgoing = {}, incoming = {}\<rparr>, [])"
  by (simp add: penv_of_def src_def PyFile_init_def load_def)

text \<open>
  Claim C2. For a file that parses, and a resolver that raises nothing but
  ImportError on the names of its import statements: loading returns without an
  exception. The imports are the paths of the names that resolve, statement by
  statement: each name \<open>X\<close> of \<open>import X\<close>, the module \<open>X\<close> of \<open>from X import Y\<close>, and each
  \<open>X.Y\<close>; a name that fails adds none, and the names after it are still resolved. The
  log gains, in the order of the statements, one record at level info for each name
  \<open>X\<close> of \<open>import X\<close> that fails and one for the module \<open>X\<close> of \<open>from X import Y\<close> if it
  fails, and no record for a name \<open>X.Y\<close>, whether it fails or not.
\<close>

theorem load_recovers_failed_names:
  assumes "read_file penv (absp (path f)) = Some text"
    and "ast_parse penv text = Inr tree"
    and "list_all (\<lambda>n.
           case n of
             Import names \<Rightarrow>
               list_all (\<lambda>name. only_ImportError r finder (python_path ws) (Some name)) names
           | ImportFrom modname names \<Rightarrow>
               only_ImportError r finder (python_path ws) modname \<and>
               list_all (\<lambda>name. only_ImportError r finder (python_path ws)
                           (Some ((case modname of None \<Rightarrow> ''None'' | Some s \<Rightarrow> s) @ ''.'' @ name)))
                 names
           | Other_node \<Rightarrow> True) tree"
  shows "fst (load r finder penv env ws f lg) = None \<and>
         set (imports' (fst (snd (load r finder penv env ws f lg))))
           = (\<Union>n \<in> set tree.
                case n of
                  Import names \<Rightarrow> (\<Union>name \<in> set names. contributes r finder env ws (Some name))
                | ImportFrom modname names \<Rightarrow>
                    contributes r finder env ws modname \<union>
                    (\<Union>name \<in> set names.
                       contributes r finder env ws
                         (Some ((case modname of None \<Rightarrow> ''None'' | Some s \<Rightarrow> s) @ ''.'' @ name)))
                | Other_node \<Rightarrow> {}) \<and>
         snd (snd (load r finder penv env ws f lg))
           = lg @ concat (map (\<lambda>n.
                    case n of
                      Import names \<Rightarrow>
                        concat (map (\<lambda>name. failure_record r finder ws (path f) (Some name)) names)
                    | ImportFrom modname names \<Rightarrow> failure_record r finder ws (path f) modname
                    | Other_node \<Rightarrow> []) tree)"
proof -
  have ok: "raises_only_ImportError r finder (python_path ws) (parsed_imports tree)"
    using assms(3) by (rule only_nodes)
  show ?thesis
    using assms(1,2) resolve_all_recovers [OF ok, of env "path f" "[]" lg]
    unfolding contributes_nodes failures_nodes
    by (auto simp: load_def split: prod.splits option.splits)
qed

theorem load_recovers_failed_names_witness:
  "fst (load resolve_import modules
          (penv_of ''import nosuch; from missing import thing; from root.pkg import Classy'')
          env0 ws0 \<lparr>path = src, imports' = [], outgoing = {}, incoming = {}\<rparr> []) = None \<and>
   set (imports' (fst (snd (load resolve_import modules
          (penv_of ''import nosuch; from missing import thing; from root.pkg import Classy'')
          env0 ws0 \<lparr>path = src, imports' = [], outgoing = {}, incoming = {}\<rparr> []))))
     = {in_root ''__init__.py'', in_root ''pkg/__init__.py''} \<and>
   snd (snd (load resolve_import modules
          (penv_of ''import nosuch; from missing import thing; from root.pkg import Classy'')
          env0 ws0 \<lparr>path = src, imports' = [], outgoing = {}, incoming = {}\<rparr> []))
     = [(INFO, Failed_to_resolve src (Some ''nosuch'') (ImportError ''nosuch'')),
        (INFO, Failed_to_resolve src (Some ''missing'') (ImportError ''missing''))]"
proof -
  let ?text = "''import nosuch; from missing import thing; from root.pkg import Classy''"
  let ?tree = "[Other_node, Import [''nosuch''], ImportFrom (Some ''missing'') [''thing''],
                ImportFrom (Some ''root.pkg'') [''Classy''], Other_node, Other_node, Other_node]"
  let ?f = "\<lparr>path = src, imports' = [], outgoing = {}, incoming = {}\<rparr>"
  have h1: "read_file (penv_of ?text) (absp (path ?f)) = Some ?text"
    by (simp add: penv_of_def src_def)
  have h2: "ast_parse (penv_of ?text) ?text = Inr ?tree"
    by (simp add: penv_of_def)
  have r1: "resolve_import (Some ''nosuch'') modules [] = Inl (ImportError ''nosuch'')"
    by code_simp
  have r2: "resolve_import (Some ''missing'') modules [] = Inl (ImportError ''missing'')"
    by code_simp
  have r3: "resolve_import (Some ''missing.thing'') modules [] = Inl (ImportError ''missing'')"
    by code_simp
  have r4: "resolve_import (Some ''root.pkg'') modules []
              = Inr [''/root/__init__.py'', ''/root/pkg/__init__.py'']"
    by code_simp
  have r5: "resolve_import (Some ''root.pkg.Classy'') modules [] = Inl (ImportError ''Classy'')"
    by code_simp
  have h3: "list_all (\<lambda>n.
           case n of
             Import names \<Rightarrow>
               list_all (\<lambda>name. only_ImportError resolve_import modules (python_path ws0) (Some name)) names
           | ImportFrom modname names \<Rightarrow>
               only_ImportError resolve_import modules (python_path ws0) modname \<and>
               list_all (\<lambda>name. only_ImportError resolve_import modules (python_path ws0)
                           (Some ((case modname of None \<Rightarrow> ''None'' | Some s \<Rightarrow> s) @ ''.'' @ name)))
                 names
           | Other_node \<Rightarrow> True) ?tree"
    by (simp add: only_ImportError_def python_path_ws0 r1 r2 r3 r4 r5)
  have p1: "Path_init env0 (realpath env0 ''/root/__init__.py'') ''/tmp/t'' = in_root ''__init__.py''"
    by code_simp
  have p2: "Path_init env0 (realpath env0 ''/root/pkg/__init__.py'') ''/tmp/t'' = in_root ''pkg/__init__.py''"
    by code_simp
  show ?thesis
    using load_recovers_failed_names [OF h1 h2 h3, of env0 "[]"]
    by (simp add: contributes_def failure_record_def root_dir_ws0 python_path_ws0 r1 r2 r3 r4 r5 p1 p2)
qed

section \<open>The import resolver\<close>

lemma resolve_segments_chain:
  "package_chain finder search segs ds leaf \<Longrightarrow>
   resolve_segments finder search segs = Inr (map (\<lambda>d. posix_join d ''__init__.py'') ds @ [leaf])"
  by (induction finder search segs ds leaf rule: package_chain.induct) auto

text \<open>
  Claim C1. Where every segment of a dotted name but the last is a package and the
  last is a module, the resolver returns the initializer file of each package and the
  file of the module; and a file whose only import is that name has as its imports
  exactly the paths of these files, each once.
\<close>

theorem resolve_package_chain:
  assumes "package_chain finder (python_path ws) (split_on CHR ''.'' name) ds leaf"
    and "read_file penv (absp (path f)) = Some text"
    and "ast_parse penv text = Inr tree"
    and "parsed_imports tree = [(Some name, False)]"
  shows "resolve_import (Some name) finder (python_path ws)
           = Inr (map (\<lambda>d. posix_join d ''__init__.py'') ds @ [leaf]) \<and>
         fst (load resolve_import finder penv env ws f lg) = None \<and>
         set (imports' (fst (snd (load resolve_import finder penv env ws f lg))))
           = (\<lambda>p. Path_init env (realpath env p) (root_dir ws))
               ` (set (map (\<lambda>d. posix_join d ''__init__.py'') ds) \<union> {leaf}) \<and>
         distinct (imports' (fst (snd (load resolve_import finder penv env ws f lg))))"
proof -
  let ?paths = "map (\<lambda>d. posix_join d ''__init__.py'') ds @ [leaf]"
  have r: "resolve_import (Some name) finder (python_path ws) = Inr ?paths"
    using assms(1) by (simp add: resolve_import_def resolve_segments_chain)
  let ?new = "update_imports env (root_dir ws) ?paths []"
  have l: "load resolve_import finder penv env ws f lg = (None, f\<lparr>imports' := ?new\<rparr>, lg)"
    using assms(2,3,4) r by (simp add: load_def)
  have "set ?new = (\<lambda>p. Path_init env (realpath env p) (root_dir ws))
                            ` (set (map (\<lambda>d. posix_join d ''__init__.py'') ds) \<union> {leaf})"
    by (simp add: set_update_imports Un_commute)
  moreover have "distinct ?new"
    by (simp add: distinct_update_imports)
  ultimately show ?thesis using r l by simp
qed

theorem resolve_package_chain_witness:
  "resolve_import (Some ''root.pkg.mod'') modules []
     = Inr [''/root/__init__.py'', ''/root/pkg/__init__.py'', ''/root/pkg/mod.py''] \<and>
   set (imports' (fst (snd (load resolve_import modules (penv_of ''import root.pkg.mod'') env0 ws0
          \<lparr>path = src, imports' = [], outgoing = {}, incoming = {}\<rparr> []))))
     = {in_root ''__init__.py'', in_root ''pkg/__init__.py'', in_root ''pkg/mod.py''} \<and>
   card {in_root ''__init__.py'', in_root ''pkg/__init__.py'', in_root ''pkg/mod.py''} = 3 \<and>
   distinct (imports' (fst (snd (load resolve_import modules (penv_of ''import root.pkg.mod'') env0 ws0
          \<lparr>path = src, imports' = [], outgoing = {}, incoming = {}\<rparr> []))))"
proof -
  let ?f = "\<lparr>path = src, imports' = [], outgoing = {}, incoming = {}\<rparr>"
  have h0: "package_chain modules (python_path ws0) (split_on CHR ''.'' ''root.pkg.mod'')
              [''/root/'', ''/root/pkg/''] ''/root/pkg/mod.py''"
    by code_simp
  have h1: "read_file (penv_of ''import root.pkg.mod'') (absp (path ?f)) = Some ''import root.pkg.mod''"
    by (simp add: penv_of_def src_def)
  have h2: "ast_parse (penv_of ''import root.pkg.mod'') ''import root.pkg.mod''
              = Inr [Other_node, Import [''root.pkg.mod''], Other_node]"
    by (simp add: penv_of_def)
  have h3: "parsed_imports [Other_node, Import [''root.pkg.mod''], Other_node]
              = [(Some ''root.pkg.mod'', False)]"
    by simp
  have j1: "posix_join ''/root/'' ''__init__.py'' = ''/root/__init__.py''" by code_simp
  have j2: "posix_join ''/root/pkg/'' ''__init__.py'' = ''/root/pkg/__init__.py''" by code_simp
  have p1: "Path_init env0 (realpath env0 ''/root/__init__.py'') ''/tmp/t'' = in_root ''__init__.py''"
    by code_simp
  have p2: "Path_init env0 (realpath env0 ''/root/pkg/__init__.py'') ''/tmp/t'' = in_root ''pkg/__init__.py''"
    by code_simp
  have p3: "Path_init env0 (realpath env0 ''/root/pkg/mod.py'') ''/tmp/t'' = in_root ''pkg/mod.py''"
    by code_simp
  have c: "card {in_root ''__init__.py'', in_root ''pkg/__init__.py'', in_root ''pkg/mod.py''} = 3"
    by (simp add: in_root_def)
  show ?thesis
    using resolve_package_chain [OF h0 h1 h2 h3, of env0 "[]"] c
    by (simp add: python_path_ws0 root_dir_ws0 j1 j2 p1 p2 p3 insert_commute)
qed

section \<open>Linking\<close>

lemma import_edges_Nil: "import_edges g self [] = {}"
  by (simp add: import_edges_def)

lemma import_edges_Cons:
  "import_edges g self (i # is) =
     (case find_file g i of None \<Rightarrow> {} | Some d \<Rightarrow> {\<lparr>edge_type = IMPORT, source = self, dest = d\<rparr>})
       \<union> import_edges g self is"
  by (auto simp: import_edges_def split: option.splits)

lemma edges_into_empty: "edges_into a {} = {}"
  by (simp add: edges_into_def)

lemma edges_into_Un: "edges_into a (A \<union> B) = edges_into a A \<union> edges_into a B"
  by (auto simp: edges_into_def)

lemma edges_into_single: "edges_into a {x} = (if dest x = a then {x} else {})"
  by (auto simp: edges_into_def)

lemma linked_empty: "linked self {} h = h"
  by (simp add: linked_def fun_eq_iff edges_into_empty)

lemma linked_Un: "linked self (A \<union> B) h = linked self B (linked self A h)"
  by (simp add: linked_def fun_eq_iff edges_into_Un Un_assoc)

lemma visit_import_linked:
  "visit_import g self i h =
     linked self (case find_file g i of None \<Rightarrow> {}
                  | Some d \<Rightarrow> {\<lparr>edge_type = IMPORT, source = self, dest = d\<rparr>}) h"
proof (cases "find_file g i")
  case None
  then show ?thesis by (simp add: visit_import_def linked_empty)
next
  case (Some d)
  then show ?thesis
    by (simp add: visit_import_def linked_def fun_eq_iff Let_def edges_into_single)
qed

lemma fold_visit_import:
  "fold (visit_import g self) is h = linked self (import_edges g self is) h"
proof (induction "is" arbitrary: h)
  case Nil
  then show ?case by (simp add: import_edges_Nil linked_empty)
next
  case (Cons i "is")
  then show ?case
    by (simp add: import_edges_Cons linked_Un visit_import_linked)
qed

lemma edges_into_import_edges:
  "edges_into a (import_edges g self is)
     = {\<lparr>edge_type = IMPORT, source = self, dest = a\<rparr> | i. i \<in> set is \<and> find_file g i = Some a}"
  by (auto simp: import_edges_def edges_into_def)

text \<open>
  Claim C4. \<open>visit\<close> changes the heap in this way and no other: the visiting file
  gains, in \<open>outgoing\<close>, the import edge from itself to each vertex that the graph
  finds for one of its imports; each such vertex gains that edge in \<open>incoming\<close>; an
  import that the graph does not find adds nothing. The sets hold an edge once,
  however many imports lead to its vertex.
\<close>

theorem visit_links_imports:
  "visit g self h =
     (\<lambda>a. (h a)\<lparr>outgoing := outgoing (h a) \<union>
                    (if a = self
                     then {\<lparr>edge_type = IMPORT, source = self, dest = d\<rparr> | i d.
                             i \<in> set (imports' (h self)) \<and> find_file g i = Some d}
                     else {}),
                incoming := incoming (h a) \<union>
                    {\<lparr>edge_type = IMPORT, source = self, dest = a\<rparr> | i.
                       i \<in> set (imports' (h self)) \<and> find_file g i = Some a}\<rparr>)"
proof -
  have "visit g self h = linked self (import_edges g self (imports' (h self))) h"
    by (simp add: visit_def fold_visit_import)
  also have "\<dots> =
     (\<lambda>a. (h a)\<lparr>outgoing := outgoing (h a) \<union>
                    (if a = self then import_edges g self (imports' (h self)) else {}),
                incoming := incoming (h a) \<union>
                    {\<lparr>edge_type = IMPORT, source = self, dest = a\<rparr> | i.
                       i \<in> set (imports' (h self)) \<and> find_file g i = Some a}\<rparr>)"
    unfolding linked_def edges_into_import_edges by (rule refl)
  finally show ?thesis unfolding import_edges_def .
qed

lemma find_b: "find_file graph1 (in_t ''b.py'') = Some 1"
  by (simp add: graph1_def find_file_def in_t_def)

lemma find_c: "find_file graph1 (in_root ''c.py'') = None"
  by (simp add: graph1_def find_file_def in_t_def in_root_def)

theorem visit_links_imports_witness:
  "outgoing (visit graph1 0 heap1 0) = {\<lparr>edge_type = IMPORT, source = 0, dest = 1\<rparr>} \<and>
   incoming (visit graph1 0 heap1 1) = {\<lparr>edge_type = IMPORT, source = 0, dest = 1\<rparr>} \<and>
   incoming (visit graph1 0 heap1 0) = {} \<and>
   outgoing (visit graph1 0 heap1 1) = {}"
proof -
  have i: "imports' (heap1 0) = [in_t ''b.py'', in_root ''c.py'']"
    by (simp add: heap1_def)
  have e: "{\<lparr>edge_type = IMPORT, source = 0, dest = d\<rparr> | i d.
              i \<in> set [in_t ''b.py'', in_root ''c.py''] \<and> find_file graph1 i = Some d}
           = {\<lparr>edge_type = IMPORT, source = 0, dest = 1\<rparr>}"
    using find_b find_c by auto
  have e1: "{\<lparr>edge_type = IMPORT, source = 0, dest = 1\<rparr> | i.
              i \<in> set [in_t ''b.py'', in_root ''c.py''] \<and> find_file graph1 i = Some 1}
           = {\<lparr>edge_type = IMPORT, source = 0, dest = 1\<rparr>}"
    using find_b find_c by auto
  have e0: "{\<lparr>edge_type = IMPORT, source = 0, dest = 0\<rparr> | i.
              i \<in> set [in_t ''b.py'', in_root ''c.py''] \<and> find_file graph1 i = Some 0}
           = {}"
    using find_b find_c by auto
  have o0: "outgoing (heap1 0) = {}" "incoming (heap1 0) = {}"
           "outgoing (heap1 1) = {}" "incoming (heap1 1) = {}"
    by (simp_all add: heap1_def)
  show ?thesis
    unfolding visit_links_imports [of graph1 0 heap1] i
    using e e1 e0 o0 by simp
qed

end
